theory Spec2Isabelle
  imports Main "HOL-Library.Word"
begin

chapter \<open>StegofyDev: relational schema and brand forms\<close>

section \<open>JavaScript strings\<close>

text \<open>
  A JavaScript string is a sequence of UTF-16 code units, written here as natural
  numbers. \<open>utf16\<close> gives the code units of a literal whose characters lie in ASCII or
  Latin-1, where code unit and character code agree.
\<close>

type_synonym js_string = "nat list"

definition utf16 :: "string \<Rightarrow> js_string" where
  "utf16 s = map of_char s"

definition is_high_surrogate :: "nat \<Rightarrow> bool" where
  "is_high_surrogate c = (55296 \<le> c \<and> c \<le> 56319)"

definition is_low_surrogate :: "nat \<Rightarrow> bool" where
  "is_low_surrogate c = (56320 \<le> c \<and> c \<le> 57343)"

text \<open>
  \<open>StringToCodePoints\<close>: a high surrogate followed by a low one is one code point above
  \<open>0xFFFF\<close>, every other code unit is a code point by itself. \<open>CodePointsToString\<close>
  is the way back.
\<close>

fun StringToCodePoints :: "js_string \<Rightarrow> nat list" where
  "StringToCodePoints [] = []"
| "StringToCodePoints [c] = [c]"
| "StringToCodePoints (c # d # cs) =
     (if is_high_surrogate c \<and> is_low_surrogate d
      then (65536 + (c - 55296) * 1024 + (d - 56320)) # StringToCodePoints cs
      else c # StringToCodePoints (d # cs))"

definition UTF16EncodeCodePoint :: "nat \<Rightarrow> js_string" where
  "UTF16EncodeCodePoint cp =
     (if cp < 65536 then [cp]
      else [55296 + (cp - 65536) div 1024, 56320 + (cp - 65536) mod 1024])"

definition CodePointsToString :: "nat list \<Rightarrow> js_string" where
  "CodePointsToString cps = concat (map UTF16EncodeCodePoint cps)"

section \<open>Brand URL slug (BrandProfileSection, handleSubmit)\<close>

text \<open>
  After a successful save the profile form rewrites the address bar:
  \<^verbatim>\<open>
  const brandSlug = profile.basicInfo.brandName
    .toLowerCase()
    .replace(/[^a-z0-9]+/g, '-')
    .replace(/(^-|-$)/g, '');
  \<close>
  The brand name is any JavaScript string.
\<close>

definition is_lower_alnum :: "nat \<Rightarrow> bool" where
  "is_lower_alnum c = ((97 \<le> c \<and> c \<le> 122) \<or> (48 \<le> c \<and> c \<le> 57))"

definition is_alnum :: "nat \<Rightarrow> bool" where
  "is_alnum c = ((65 \<le> c \<and> c \<le> 90) \<or> (97 \<le> c \<and> c \<le> 122) \<or> (48 \<le> c \<and> c \<le> 57))"

subsection \<open>String.prototype.toLowerCase\<close>

text \<open>
  \<open>toLowerCase\<close> takes the string to code points, applies the Unicode default case
  conversion and goes back to code units. The conversion is given by the Unicode
  Character Database, here in version 14.0. Beyond ASCII, the code points with a simple
  lowercase mapping are listed as ranges \<open>(first, last, step, delta)\<close>: the code points
  \<open>first, first + step, ...\<close> up to \<open>last\<close> move by \<open>delta\<close>. Among them is the Kelvin sign
  \<open>U+212A\<close>, which goes to the letter \<open>k\<close>.
\<close>

definition lower_ranges :: "(nat \<times> nat \<times> nat \<times> int) list" where
  "lower_ranges =
     [
      (192, 214, 1, 32), (216, 222, 1, 32), (256, 302, 2, 1), (306, 310, 2, 1),
      (313, 327, 2, 1), (330, 374, 2, 1), (376, 376, 1, -121), (377, 381, 2, 1),
      (385, 385, 1, 210), (386, 388, 2, 1), (390, 390, 1, 206), (391, 391, 1, 1),
      (393, 394, 1, 205), (395, 395, 1, 1), (398, 398, 1, 79), (399, 399, 1, 202),
      (400, 400, 1, 203), (401, 401, 1, 1), (403, 403, 1, 205), (404, 404, 1, 207),
      (406, 406, 1, 211), (407, 407, 1, 209), (408, 408, 1, 1), (412, 412, 1, 211),
      (413, 413, 1, 213), (415, 415, 1, 214), (416, 420, 2, 1), (422, 422, 1, 218),
      (423, 423, 1, 1), (425, 425, 1, 218), (428, 428, 1, 1), (430, 430, 1, 218),
      (431, 431, 1, 1), (433, 434, 1, 217), (435, 437, 2, 1), (439, 439, 1, 219),
      (440, 440, 1, 1), (444, 444, 1, 1), (452, 452, 1, 2), (453, 453, 1, 1),
      (455, 455, 1, 2), (456, 456, 1, 1), (458, 458, 1, 2), (459, 475, 2, 1),
      (478, 494, 2, 1), (497, 497, 1, 2), (498, 500, 2, 1), (502, 502, 1, -97),
      (503, 503, 1, -56), (504, 542, 2, 1), (544, 544, 1, -130), (546, 562, 2, 1),
      (570, 570, 1, 10795), (571, 571, 1, 1), (573, 573, 1, -163), (574, 574, 1, 10792),
      (577, 577, 1, 1), (579, 579, 1, -195), (580, 580, 1, 69), (581, 581, 1, 71),
      (582, 590, 2, 1), (880, 882, 2, 1), (886, 886, 1, 1), (895, 895, 1, 116),
      (902, 902, 1, 38), (904, 906, 1, 37), (908, 908, 1, 64), (910, 911, 1, 63),
      (913, 929, 1, 32), (932, 939, 1, 32), (975, 975, 1, 8), (984, 1006, 2, 1),
      (1012, 1012, 1, -60), (1015, 1015, 1, 1), (1017, 1017, 1, -7), (1018, 1018, 1, 1),
      (1021, 1023, 1, -130), (1024, 1039, 1, 80), (1040, 1071, 1, 32), (1120, 1152, 2, 1),
      (1162, 1214, 2, 1), (1216, 1216, 1, 15), (1217, 1229, 2, 1), (1232, 1326, 2, 1),
      (1329, 1366, 1, 48), (4256, 4293, 1, 7264), (4295, 4295, 1, 7264), (4301, 4301, 1, 7264),
      (5024, 5103, 1, 38864), (5104, 5109, 1, 8), (7312, 7354, 1, -3008), (7357, 7359, 1, -3008),
      (7680, 7828, 2, 1), (7838, 7838, 1, -7615), (7840, 7934, 2, 1), (7944, 7951, 1, -8),
      (7960, 7965, 1, -8), (7976, 7983, 1, -8), (7992, 7999, 1, -8), (8008, 8013, 1, -8),
      (8025, 8031, 2, -8), (8040, 8047, 1, -8), (8072, 8079, 1, -8), (8088, 8095, 1, -8),
      (8104, 8111, 1, -8), (8120, 8121, 1, -8), (8122, 8123, 1, -74), (8124, 8124, 1, -9),
      (8136, 8139, 1, -86), (8140, 8140, 1, -9), (8152, 8153, 1, -8), (8154, 8155, 1, -100),
      (8168, 8169, 1, -8), (8170, 8171, 1, -112), (8172, 8172, 1, -7), (8184, 8185, 1, -128),
      (8186, 8187, 1, -126), (8188, 8188, 1, -9), (8486, 8486, 1, -7517), (8490, 8490, 1, -8383),
      (8491, 8491, 1, -8262), (8498, 8498, 1, 28), (8544, 8559, 1, 16), (8579, 8579, 1, 1),
      (9398, 9423, 1, 26), (11264, 11311, 1, 48), (11360, 11360, 1, 1), (11362, 11362, 1, -10743),
      (11363, 11363, 1, -3814), (11364, 11364, 1, -10727), (11367, 11371, 2, 1), (11373, 11373, 1, -10780),
      (11374, 11374, 1, -10749), (11375, 11375, 1, -10783), (11376, 11376, 1, -10782), (11378, 11378, 1, 1),
      (11381, 11381, 1, 1), (11390, 11391, 1, -10815), (11392, 11490, 2, 1), (11499, 11501, 2, 1),
      (11506, 11506, 1, 1), (42560, 42604, 2, 1), (42624, 42650, 2, 1), (42786, 42798, 2, 1),
      (42802, 42862, 2, 1), (42873, 42875, 2, 1), (42877, 42877, 1, -35332), (42878, 42886, 2, 1),
      (42891, 42891, 1, 1), (42893, 42893, 1, -42280), (42896, 42898, 2, 1), (42902, 42920, 2, 1),
      (42922, 42922, 1, -42308), (42923, 42923, 1, -42319), (42924, 42924, 1, -42315), (42925, 42925, 1, -42305),
      (42926, 42926, 1, -42308), (42928, 42928, 1, -42258), (42929, 42929, 1, -42282), (42930, 42930, 1, -42261),
      (42931, 42931, 1, 928), (42932, 42946, 2, 1), (42948, 42948, 1, -48), (42949, 42949, 1, -42307),
      (42950, 42950, 1, -35384), (42951, 42953, 2, 1), (42960, 42960, 1, 1), (42966, 42968, 2, 1),
      (42997, 42997, 1, 1), (65313, 65338, 1, 32), (66560, 66599, 1, 40), (66736, 66771, 1, 40),
      (66928, 66938, 1, 39), (66940, 66954, 1, 39), (66956, 66962, 1, 39), (66964, 66965, 1, 39),
      (68736, 68786, 1, 64), (71840, 71871, 1, 32), (93760, 93791, 1, 32), (125184, 125217, 1, 34)]"


definition simple_lower :: "nat \<Rightarrow> nat" where
  "simple_lower c =
     (if 65 \<le> c \<and> c \<le> 90 then c + 32
      else if c < 128 then c
      else
        case find (\<lambda>(lo, hi, st, d). lo \<le> c \<and> c \<le> hi \<and> (c - lo) mod st = 0) lower_ranges of
          None \<Rightarrow> c
        | Some (lo, hi, st, d) \<Rightarrow> nat (int c + d))"

text \<open>
  Two code points are converted by \<open>SpecialCasing\<close>. \<open>U+0130\<close>, the capital I with a dot
  above, becomes \<open>i\<close> followed by the combining dot \<open>U+0307\<close>. The capital sigma \<open>U+03A3\<close>
  becomes the final sigma \<open>U+03C2\<close> where it ends a word and \<open>U+03C3\<close> elsewhere: it ends
  a word when a cased letter comes before it and none after it, case-ignorable code
  points in between not counting. The two properties are again ranges \<open>(first, last)\<close>
  of the database.
\<close>

definition cased_ranges :: "(nat \<times> nat) list" where
  "cased_ranges =
     [
      (65, 90), (97, 122), (170, 170), (181, 181), (186, 186), (192, 214),
      (216, 246), (248, 442), (444, 447), (452, 659), (661, 696), (704, 705),
      (736, 740), (837, 837), (880, 883), (886, 887), (890, 893), (895, 895),
      (902, 902), (904, 906), (908, 908), (910, 929), (931, 1013), (1015, 1153),
      (1162, 1327), (1329, 1366), (1376, 1416), (4256, 4293), (4295, 4295), (4301, 4301),
      (4304, 4346), (4349, 4351), (5024, 5109), (5112, 5117), (7296, 7304), (7312, 7354),
      (7357, 7359), (7424, 7615), (7680, 7957), (7960, 7965), (7968, 8005), (8008, 8013),
      (8016, 8023), (8025, 8025), (8027, 8027), (8029, 8029), (8031, 8061), (8064, 8116),
      (8118, 8124), (8126, 8126), (8130, 8132), (8134, 8140), (8144, 8147), (8150, 8155),
      (8160, 8172), (8178, 8180), (8182, 8188), (8305, 8305), (8319, 8319), (8336, 8348),
      (8450, 8450), (8455, 8455), (8458, 8467), (8469, 8469), (8473, 8477), (8484, 8484),
      (8486, 8486), (8488, 8488), (8490, 8493), (8495, 8500), (8505, 8505), (8508, 8511),
      (8517, 8521), (8526, 8526), (8544, 8575), (8579, 8580), (9398, 9449), (11264, 11492),
      (11499, 11502), (11506, 11507), (11520, 11557), (11559, 11559), (11565, 11565), (42560, 42605),
      (42624, 42653), (42786, 42887), (42891, 42894), (42896, 42954), (42960, 42961), (42963, 42963),
      (42965, 42969), (42997, 42998), (43000, 43002), (43824, 43866), (43868, 43880), (43888, 43967),
      (64256, 64262), (64275, 64279), (65313, 65338), (65345, 65370), (66560, 66639), (66736, 66771),
      (66776, 66811), (66928, 66938), (66940, 66954), (66956, 66962), (66964, 66965), (66967, 66977),
      (66979, 66993), (66995, 67001), (67003, 67004), (67456, 67456), (67459, 67461), (67463, 67504),
      (67506, 67514), (68736, 68786), (68800, 68850), (71840, 71903), (93760, 93823), (119808, 119892),
      (119894, 119964), (119966, 119967), (119970, 119970), (119973, 119974), (119977, 119980), (119982, 119993),
      (119995, 119995), (119997, 120003), (120005, 120069), (120071, 120074), (120077, 120084), (120086, 120092),
      (120094, 120121), (120123, 120126), (120128, 120132), (120134, 120134), (120138, 120144), (120146, 120485),
      (120488, 120512), (120514, 120538), (120540, 120570), (120572, 120596), (120598, 120628), (120630, 120654),
      (120656, 120686), (120688, 120712), (120714, 120744), (120746, 120770), (120772, 120779), (122624, 122633),
      (122635, 122654), (125184, 125251), (127280, 127305), (127312, 127337), (127344, 127369)]"


definition case_ignorable_ranges :: "(nat \<times> nat) list" where
  "case_ignorable_ranges =
     [
      (39, 39), (46, 46), (58, 58), (94, 94), (96, 96), (168, 168),
      (173, 173), (175, 175), (180, 180), (183, 184), (688, 879), (884, 885),
      (890, 890), (900, 901), (903, 903), (1155, 1161), (1369, 1369), (1375, 1375),
      (1425, 1469), (1471, 1471), (1473, 1474), (1476, 1477), (1479, 1479), (1524, 1524),
      (1536, 1541), (1552, 1562), (1564, 1564), (1600, 1600), (1611, 1631), (1648, 1648),
      (1750, 1757), (1759, 1768), (1770, 1773), (1807, 1807), (1809, 1809), (1840, 1866),
      (1958, 1968), (2027, 2037), (2042, 2042), (2045, 2045), (2070, 2093), (2137, 2139),
      (2184, 2184), (2192, 2193), (2200, 2207), (2249, 2306), (2362, 2362), (2364, 2364),
      (2369, 2376), (2381, 2381), (2385, 2391), (2402, 2403), (2417, 2417), (2433, 2433),
      (2492, 2492), (2497, 2500), (2509, 2509), (2530, 2531), (2558, 2558), (2561, 2562),
      (2620, 2620), (2625, 2626), (2631, 2632), (2635, 2637), (2641, 2641), (2672, 2673),
      (2677, 2677), (2689, 2690), (2748, 2748), (2753, 2757), (2759, 2760), (2765, 2765),
      (2786, 2787), (2810, 2815), (2817, 2817), (2876, 2876), (2879, 2879), (2881, 2884),
      (2893, 2893), (2901, 2902), (2914, 2915), (2946, 2946), (3008, 3008), (3021, 3021),
      (3072, 3072), (3076, 3076), (3132, 3132), (3134, 3136), (3142, 3144), (3146, 3149),
      (3157, 3158), (3170, 3171), (3201, 3201), (3260, 3260), (3263, 3263), (3270, 3270),
      (3276, 3277), (3298, 3299), (3328, 3329), (3387, 3388), (3393, 3396), (3405, 3405),
      (3426, 3427), (3457, 3457), (3530, 3530), (3538, 3540), (3542, 3542), (3633, 3633),
      (3636, 3642), (3654, 3662), (3761, 3761), (3764, 3772), (3782, 3782), (3784, 3789),
      (3864, 3865), (3893, 3893), (3895, 3895), (3897, 3897), (3953, 3966), (3968, 3972),
      (3974, 3975), (3981, 3991), (3993, 4028), (4038, 4038), (4141, 4144), (4146, 4151),
      (4153, 4154), (4157, 4158), (4184, 4185), (4190, 4192), (4209, 4212), (4226, 4226),
      (4229, 4230), (4237, 4237), (4253, 4253), (4348, 4348), (4957, 4959), (5906, 5908),
      (5938, 5939), (5970, 5971), (6002, 6003), (6068, 6069), (6071, 6077), (6086, 6086),
      (6089, 6099), (6103, 6103), (6109, 6109), (6155, 6159), (6211, 6211), (6277, 6278),
      (6313, 6313), (6432, 6434), (6439, 6440), (6450, 6450), (6457, 6459), (6679, 6680),
      (6683, 6683), (6742, 6742), (6744, 6750), (6752, 6752), (6754, 6754), (6757, 6764),
      (6771, 6780), (6783, 6783), (6823, 6823), (6832, 6862), (6912, 6915), (6964, 6964),
      (6966, 6970), (6972, 6972), (6978, 6978), (7019, 7027), (7040, 7041), (7074, 7077),
      (7080, 7081), (7083, 7085), (7142, 7142), (7144, 7145), (7149, 7149), (7151, 7153),
      (7212, 7219), (7222, 7223), (7288, 7293), (7376, 7378), (7380, 7392), (7394, 7400),
      (7405, 7405), (7412, 7412), (7416, 7417), (7468, 7530), (7544, 7544), (7579, 7679),
      (8125, 8125), (8127, 8129), (8141, 8143), (8157, 8159), (8173, 8175), (8189, 8190),
      (8203, 8207), (8216, 8217), (8228, 8228), (8231, 8231), (8234, 8238), (8288, 8292),
      (8294, 8303), (8305, 8305), (8319, 8319), (8336, 8348), (8400, 8432), (11388, 11389),
      (11503, 11505), (11631, 11631), (11647, 11647), (11744, 11775), (11823, 11823), (12293, 12293),
      (12330, 12333), (12337, 12341), (12347, 12347), (12441, 12446), (12540, 12542), (40981, 40981),
      (42232, 42237), (42508, 42508), (42607, 42610), (42612, 42621), (42623, 42623), (42652, 42655),
      (42736, 42737), (42752, 42785), (42864, 42864), (42888, 42890), (42994, 42996), (43000, 43001),
      (43010, 43010), (43014, 43014), (43019, 43019), (43045, 43046), (43052, 43052), (43204, 43205),
      (43232, 43249), (43263, 43263), (43302, 43309), (43335, 43345), (43392, 43394), (43443, 43443),
      (43446, 43449), (43452, 43453), (43471, 43471), (43493, 43494), (43561, 43566), (43569, 43570),
      (43573, 43574), (43587, 43587), (43596, 43596), (43632, 43632), (43644, 43644), (43696, 43696),
      (43698, 43700), (43703, 43704), (43710, 43711), (43713, 43713), (43741, 43741), (43756, 43757),
      (43763, 43764), (43766, 43766), (43867, 43871), (43881, 43883), (44005, 44005), (44008, 44008),
      (44013, 44013), (64286, 64286), (64434, 64450), (65024, 65039), (65043, 65043), (65056, 65071),
      (65106, 65106), (65109, 65109), (65279, 65279), (65287, 65287), (65294, 65294), (65306, 65306),
      (65342, 65342), (65344, 65344), (65392, 65392), (65438, 65439), (65507, 65507), (65529, 65531),
      (66045, 66045), (66272, 66272), (66422, 66426), (67456, 67461), (67463, 67504), (67506, 67514),
      (68097, 68099), (68101, 68102), (68108, 68111), (68152, 68154), (68159, 68159), (68325, 68326),
      (68900, 68903), (69291, 69292), (69446, 69456), (69506, 69509), (69633, 69633), (69688, 69702),
      (69744, 69744), (69747, 69748), (69759, 69761), (69811, 69814), (69817, 69818), (69821, 69821),
      (69826, 69826), (69837, 69837), (69888, 69890), (69927, 69931), (69933, 69940), (70003, 70003),
      (70016, 70017), (70070, 70078), (70089, 70092), (70095, 70095), (70191, 70193), (70196, 70196),
      (70198, 70199), (70206, 70206), (70367, 70367), (70371, 70378), (70400, 70401), (70459, 70460),
      (70464, 70464), (70502, 70508), (70512, 70516), (70712, 70719), (70722, 70724), (70726, 70726),
      (70750, 70750), (70835, 70840), (70842, 70842), (70847, 70848), (70850, 70851), (71090, 71093),
      (71100, 71101), (71103, 71104), (71132, 71133), (71219, 71226), (71229, 71229), (71231, 71232),
      (71339, 71339), (71341, 71341), (71344, 71349), (71351, 71351), (71453, 71455), (71458, 71461),
      (71463, 71467), (71727, 71735), (71737, 71738), (71995, 71996), (71998, 71998), (72003, 72003),
      (72148, 72151), (72154, 72155), (72160, 72160), (72193, 72202), (72243, 72248), (72251, 72254),
      (72263, 72263), (72273, 72278), (72281, 72283), (72330, 72342), (72344, 72345), (72752, 72758),
      (72760, 72765), (72767, 72767), (72850, 72871), (72874, 72880), (72882, 72883), (72885, 72886),
      (73009, 73014), (73018, 73018), (73020, 73021), (73023, 73029), (73031, 73031), (73104, 73105),
      (73109, 73109), (73111, 73111), (73459, 73460), (78896, 78904), (92912, 92916), (92976, 92982),
      (92992, 92995), (94031, 94031), (94095, 94111), (94176, 94177), (94179, 94180), (110576, 110579),
      (110581, 110587), (110589, 110590), (113821, 113822), (113824, 113827), (118528, 118573), (118576, 118598),
      (119143, 119145), (119155, 119170), (119173, 119179), (119210, 119213), (119362, 119364), (121344, 121398),
      (121403, 121452), (121461, 121461), (121476, 121476), (121499, 121503), (121505, 121519), (122880, 122886),
      (122888, 122904), (122907, 122913), (122915, 122916), (122918, 122922), (123184, 123197), (123566, 123566),
      (123628, 123631), (125136, 125142), (125252, 125259), (127995, 127999), (917505, 917505), (917536, 917631),
      (917760, 917999)]"

definition in_ranges :: "nat \<Rightarrow> (nat \<times> nat) list \<Rightarrow> bool" where
  "in_ranges c rs = list_ex (\<lambda>(lo, hi). lo \<le> c \<and> c \<le> hi) rs"

definition Cased :: "nat \<Rightarrow> bool" where
  "Cased c = in_ranges c cased_ranges"

definition Case_Ignorable :: "nat \<Rightarrow> bool" where
  "Case_Ignorable c = in_ranges c case_ignorable_ranges"

text \<open>The nearest code point that is not case-ignorable exists and is cased.\<close>

definition cased_letter_next :: "nat list \<Rightarrow> bool" where
  "cased_letter_next cs =
     (case dropWhile Case_Ignorable cs of [] \<Rightarrow> False | c # rest \<Rightarrow> Cased c)"

text \<open>\<open>preceding\<close> holds the code points in front of the sigma, the nearest first.\<close>

definition Final_Sigma :: "nat list \<Rightarrow> nat list \<Rightarrow> bool" where
  "Final_Sigma preceding following =
     (cased_letter_next preceding \<and> \<not> cased_letter_next following)"

definition lower_code_point :: "nat list \<Rightarrow> nat list \<Rightarrow> nat \<Rightarrow> nat list" where
  "lower_code_point preceding following c =
     (if c = 304 then [105, 775]
      else if c = 931 then (if Final_Sigma preceding following then [962] else [963])
      else [simple_lower c])"

fun lower_code_points :: "nat list \<Rightarrow> nat list \<Rightarrow> nat list" where
  "lower_code_points preceding [] = []"
| "lower_code_points preceding (c # following) =
     lower_code_point preceding following c @ lower_code_points (c # preceding) following"

definition toLowerCase :: "js_string \<Rightarrow> js_string" where
  "toLowerCase s = CodePointsToString (lower_code_points [] (StringToCodePoints s))"

subsection \<open>The two replacements\<close>

text \<open>
  \<open>replace(/[^a-z0-9]+/g, '-')\<close>: the pattern has no \<open>u\<close> flag and works on code units.
  Scanning from the left, every maximal run of code units outside \<open>[a-z0-9]\<close> becomes one
  dash (code unit 45).
\<close>

function replace_runs :: "js_string \<Rightarrow> js_string" where
  "replace_runs [] = []"
| "replace_runs (c # cs) =
     (if is_lower_alnum c then c # replace_runs cs
      else 45 # replace_runs (dropWhile (\<lambda>x. \<not> is_lower_alnum x) cs))"
  by pat_completeness auto
termination
  by (relation "measure length") (auto simp: length_dropWhile_le less_Suc_eq_le)

text \<open>
  \<open>replace(/(^-|-$)/g, '')\<close>: a dash at the very start is removed, and a dash at the very
  end of what follows it is removed; a lone dash is matched once, by the first alternative.
\<close>

definition strip_dashes :: "js_string \<Rightarrow> js_string" where
  "strip_dashes s =
     (let s1 = (case s of [] \<Rightarrow> [] | c # cs \<Rightarrow> if c = 45 then cs else s)
      in if s1 \<noteq> [] \<and> last s1 = 45 then butlast s1 else s1)"

definition brandSlug :: "js_string \<Rightarrow> js_string" where
  "brandSlug brandName = strip_dashes (replace_runs (toLowerCase brandName))"

text \<open>No two dashes stand side by side.\<close>

fun no_double_dash :: "js_string \<Rightarrow> bool" where
  "no_double_dash (a # b # cs) = (\<not> (a = 45 \<and> b = 45) \<and> no_double_dash (b # cs))"
| "no_double_dash _ = True"

section \<open>Product ingredients as JSON text (BrandProductDetail)\<close>

text \<open>
  \<open>handleSave\<close> writes \<open>JSON.stringify(form.ingredients)\<close> into the product row and
  \<open>fetchProduct\<close> reads the column back through \<open>JSON.parse\<close>. A JavaScript string is
  a list of UTF-16 code units, written here as natural numbers. The values are those an
  ingredients editor can hold: null, booleans, strings, arrays and objects (property
  order is the list order). Number literals denote IEEE doubles and are left out, so a
  text that holds one is outside this model and \<open>JSON_parse\<close> gives no value for it.
\<close>

datatype json =
    JNull
  | JBool bool
  | JStr js_string
  | JArr "json list"
  | JObj "(js_string \<times> json) list"

subsection \<open>JSON.stringify\<close>







subsection \<open>JSON.parse\<close>












subsection \<open>Saving and loading the ingredients column\<close>







section \<open>The relational schema (schema.prisma)\<close>

text \<open>
  Each \<open>model\<close> of the schema is a record and each table a list of rows. The timestamp
  columns (\<open>createdAt\<close>, \<open>updatedAt\<close>, \<open>scannedAt\<close>, \<open>lastUsed\<close>) are left out:
  nothing below reads a clock. An identifier produced by \<open>@default(cuid())\<close> is modelled
  by its position in the order of generation: the store hands out \<open>nextId\<close> and moves
  on, so that a fresh row never meets an identifier already in use. \<open>Int\<close> is
  PostgreSQL's 32-bit \<open>integer\<close>. Failures are named by the specification's error
  taxonomy.
\<close>

type_synonym ident = nat

datatype Role = ADMIN | BRAND | CUSTOMER

datatype FileType = IMAGE | PDF | VIDEO

datatype PageStatus = DRAFT | PUBLISHED | ARCHIVED

record user =
  user_id :: ident
  user_email :: string
  user_password :: string
  user_role :: Role
  user_firstName :: "string option"
  user_lastName :: "string option"
  user_age :: "int option"
  user_gender :: "string option"
  user_phone :: "string option"
  user_avatar :: "string option"

record customer_profile =
  cp_id :: ident
  cp_userId :: ident
  cp_preferences :: "json option"
  cp_savedBrands :: "string list"

record brand =
  brand_id :: ident
  brand_userId :: ident
  brand_name :: string
  brand_logo :: string
  brand_tagline :: "string option"
  brand_description :: string
  brand_videoUrl :: "string option"
  brand_mission :: "string option"
  brand_vision :: "string option"
  brand_foundingYear :: "int option"
  brand_email :: string
  brand_phone :: "string option"
  brand_address :: "json option"
  brand_socialLinks :: "json option"
  brand_certifications :: "json option"
  brand_awards :: "json option"
  brand_pressFeatures :: "json option"
  brand_featuredProducts :: "json option"
  brand_newLaunchProducts :: "json option"
  brand_campaigns :: "json option"
  brand_isActive :: bool
  brand_isVerified :: bool
  brand_settings :: "json option"

record admin_profile =
  ap_id :: ident
  ap_userId :: ident
  ap_permissions :: "string list"
  ap_department :: "string option"
  ap_isSuperAdmin :: bool

record review =
  review_id :: ident
  review_userId :: ident
  review_brandId :: ident
  review_rating :: int
  review_comment :: "string option"
  review_images :: "string list"

record file_row =
  file_id :: ident
  file_userId :: ident
  file_brandId :: ident
  file_name :: string
  file_type :: FileType
  file_size :: int
  file_mimeType :: string
  file_url :: string
  file_thumbnailUrl :: "string option"
  file_metadata :: "json option"
  file_folder :: "string option"
  file_tags :: "string list"
  file_description :: "string option"
  file_usageCount :: int

record landing_page =
  lp_id :: ident
  lp_brandId :: ident
  lp_name :: string
  lp_slug :: string
  lp_status :: PageStatus
  lp_settings :: "json option"

record block =
  block_id :: ident
  block_landingPageId :: ident
  block_type :: string
  block_order :: int
  block_content :: json

record qr_code =
  qr_id :: ident
  qr_landingPageId :: ident
  qr_brandId :: ident
  qr_name :: string
  qr_data :: string
  qr_settings :: "json option"
  qr_scanCount :: int

record scan_log =
  sl_id :: ident
  sl_qrCodeId :: ident
  sl_userId :: "ident option"
  sl_ipAddress :: "string option"
  sl_userAgent :: "string option"
  sl_location :: "json option"

record store =
  users :: "user list"
  customerProfiles :: "customer_profile list"
  brands :: "brand list"
  adminProfiles :: "admin_profile list"
  reviews :: "review list"
  files :: "file_row list"
  landingPages :: "landing_page list"
  blocks :: "block list"
  qrCodes :: "qr_code list"
  scanLogs :: "scan_log list"
  nextId :: ident

definition empty_store :: store where
  "empty_store =
     \<lparr>users = [], customerProfiles = [], brands = [], adminProfiles = [], reviews = [],
      files = [], landingPages = [], blocks = [], qrCodes = [], scanLogs = [], nextId = 0\<rparr>"

text \<open>The error taxonomy of the specification; a conflict names the unique constraint hit.\<close>

datatype conflict = DuplicateEmail | SlugConflict | ProfileAlreadyExists

datatype error =
    ValidationError
  | ConflictError conflict
  | NotFoundError
  | ReferentialError
  | StoreError

definition user_ids :: "store \<Rightarrow> ident set" where
  "user_ids s = set (map user_id (users s))"

definition brand_ids :: "store \<Rightarrow> ident set" where
  "brand_ids s = set (map brand_id (brands s))"

definition page_ids :: "store \<Rightarrow> ident set" where
  "page_ids s = set (map lp_id (landingPages s))"

definition qr_ids :: "store \<Rightarrow> ident set" where
  "qr_ids s = set (map qr_id (qrCodes s))"

text \<open>An optional reference is null or names a member.\<close>

definition opt_in :: "'a option \<Rightarrow> 'a set \<Rightarrow> bool" where
  "opt_in x A = (case x of None \<Rightarrow> True | Some v \<Rightarrow> v \<in> A)"

definition int4 :: "int \<Rightarrow> bool" where
  "int4 x = (- 2147483648 \<le> x \<and> x \<le> 2147483647)"

text \<open>An optional \<open>Int?\<close> column is null or in range.\<close>

definition opt_int4 :: "int option \<Rightarrow> bool" where
  "opt_int4 x = (case x of None \<Rightarrow> True | Some v \<Rightarrow> int4 v)"

subsection \<open>Constraints the schema declares\<close>

text \<open>\<open>@id\<close>: within a table no identifier occurs twice.\<close>

definition keys_distinct :: "store \<Rightarrow> bool" where
  "keys_distinct s =
     (distinct (map user_id (users s)) \<and>
      distinct (map cp_id (customerProfiles s)) \<and>
      distinct (map brand_id (brands s)) \<and>
      distinct (map ap_id (adminProfiles s)) \<and>
      distinct (map review_id (reviews s)) \<and>
      distinct (map file_id (files s)) \<and>
      distinct (map lp_id (landingPages s)) \<and>
      distinct (map block_id (blocks s)) \<and>
      distinct (map qr_id (qrCodes s)) \<and>
      distinct (map sl_id (scanLogs s)))"

text \<open>\<open>@relation(fields: ..., references: [id])\<close>: every foreign key names an existing row.\<close>

definition ref_integrity :: "store \<Rightarrow> bool" where
  "ref_integrity s =
     ((\<forall>p\<in>set (customerProfiles s). cp_userId p \<in> user_ids s) \<and>
      (\<forall>b\<in>set (brands s). brand_userId b \<in> user_ids s) \<and>
      (\<forall>p\<in>set (adminProfiles s). ap_userId p \<in> user_ids s) \<and>
      (\<forall>r\<in>set (reviews s). review_userId r \<in> user_ids s \<and> review_brandId r \<in> brand_ids s) \<and>
      (\<forall>f\<in>set (files s). file_userId f \<in> user_ids s \<and> file_brandId f \<in> brand_ids s) \<and>
      (\<forall>p\<in>set (landingPages s). lp_brandId p \<in> brand_ids s) \<and>
      (\<forall>b\<in>set (blocks s). block_landingPageId b \<in> page_ids s) \<and>
      (\<forall>q\<in>set (qrCodes s). qr_landingPageId q \<in> page_ids s \<and> qr_brandId q \<in> brand_ids s) \<and>
      (\<forall>l\<in>set (scanLogs s).
          sl_qrCodeId l \<in> qr_ids s \<and> opt_in (sl_userId l) (user_ids s)))"

definition consistent :: "store \<Rightarrow> bool" where
  "consistent s = (keys_distinct s \<and> ref_integrity s)"

text \<open>Identifiers in use lie below the next one to be handed out.\<close>

definition ids_below :: "store \<Rightarrow> bool" where
  "ids_below s =
     ((\<forall>x\<in>set (users s). user_id x < nextId s) \<and>
      (\<forall>x\<in>set (customerProfiles s). cp_id x < nextId s) \<and>
      (\<forall>x\<in>set (brands s). brand_id x < nextId s) \<and>
      (\<forall>x\<in>set (adminProfiles s). ap_id x < nextId s) \<and>
      (\<forall>x\<in>set (reviews s). review_id x < nextId s) \<and>
      (\<forall>x\<in>set (files s). file_id x < nextId s) \<and>
      (\<forall>x\<in>set (landingPages s). lp_id x < nextId s) \<and>
      (\<forall>x\<in>set (blocks s). block_id x < nextId s) \<and>
      (\<forall>x\<in>set (qrCodes s). qr_id x < nextId s) \<and>
      (\<forall>x\<in>set (scanLogs s). sl_id x < nextId s))"

text \<open>\<open>slug String @unique\<close> and \<open>userId String @unique\<close> on the two profile models.\<close>

definition slugs_distinct :: "store \<Rightarrow> bool" where
  "slugs_distinct s = distinct (map lp_slug (landingPages s))"

definition profiles_unique :: "store \<Rightarrow> bool" where
  "profiles_unique s =
     (distinct (map cp_userId (customerProfiles s)) \<and>
      distinct (map ap_userId (adminProfiles s)))"

text \<open>The denormalised counter: \<open>scanCount == count(scanLogs for this QRCode)\<close>.\<close>

definition scan_logs_of :: "store \<Rightarrow> ident \<Rightarrow> scan_log list" where
  "scan_logs_of s q = filter (\<lambda>l. sl_qrCodeId l = q) (scanLogs s)"

definition counts_ok :: "store \<Rightarrow> bool" where
  "counts_ok s =
     (\<forall>q\<in>set (qrCodes s). qr_scanCount q = int (length (scan_logs_of s (qr_id q))))"

definition ratings_ok :: "store \<Rightarrow> bool" where
  "ratings_ok s = (\<forall>r\<in>set (reviews s). 1 \<le> review_rating r \<and> review_rating r \<le> 5)"

subsection \<open>Deleting: the \<open>onDelete\<close> actions\<close>

text \<open>
  \<open>ScanLog.qrCode ... onDelete: Cascade\<close>: removing QR codes removes the scan logs that
  name them.
\<close>

definition delete_qrCodes_where :: "(qr_code \<Rightarrow> bool) \<Rightarrow> store \<Rightarrow> store" where
  "delete_qrCodes_where P s =
     (let gone = set (map qr_id (filter P (qrCodes s)))
      in s\<lparr>qrCodes := filter (\<lambda>q. \<not> P q) (qrCodes s),
           scanLogs := filter (\<lambda>l. sl_qrCodeId l \<notin> gone) (scanLogs s)\<rparr>)"

text \<open>
  \<open>Block.landingPage\<close> and \<open>QRCode.landingPage\<close>, both \<open>onDelete: Cascade\<close>: removing
  landing pages removes their blocks and their QR codes.
\<close>

definition delete_landingPages_where :: "(landing_page \<Rightarrow> bool) \<Rightarrow> store \<Rightarrow> store" where
  "delete_landingPages_where P s =
     (let gone = set (map lp_id (filter P (landingPages s)))
      in delete_qrCodes_where (\<lambda>q. qr_landingPageId q \<in> gone)
           (s\<lparr>landingPages := filter (\<lambda>p. \<not> P p) (landingPages s),
              blocks := filter (\<lambda>b. block_landingPageId b \<notin> gone) (blocks s)\<rparr>))"

text \<open>
  \<open>File.brand\<close>, \<open>Review.brand\<close>, \<open>LandingPage.brand\<close> and \<open>QRCode.brand\<close>, all
  \<open>onDelete: Cascade\<close>.
\<close>

definition delete_brands_where :: "(brand \<Rightarrow> bool) \<Rightarrow> store \<Rightarrow> store" where
  "delete_brands_where P s =
     (let gone = set (map brand_id (filter P (brands s)))
      in delete_landingPages_where (\<lambda>p. lp_brandId p \<in> gone)
           (delete_qrCodes_where (\<lambda>q. qr_brandId q \<in> gone)
              (s\<lparr>brands := filter (\<lambda>b. \<not> P b) (brands s),
                 files := filter (\<lambda>f. file_brandId f \<notin> gone) (files s),
                 reviews := filter (\<lambda>r. review_brandId r \<notin> gone) (reviews s)\<rparr>)))"

text \<open>
  The QR codes a brand deletion takes along: those of a deleted brand and those of a
  landing page of a deleted brand.
\<close>

definition removed_qr :: "(brand \<Rightarrow> bool) \<Rightarrow> store \<Rightarrow> qr_code \<Rightarrow> bool" where
  "removed_qr P s q =
     (qr_brandId q \<in> brand_id ` {b \<in> set (brands s). P b} \<or>
      qr_landingPageId q \<in> lp_id ` {p \<in> set (landingPages s).
          lp_brandId p \<in> brand_id ` {b \<in> set (brands s). P b}})"

text \<open>\<open>ScanLog.user ... onDelete: SetNull\<close>.\<close>

definition null_user :: "ident \<Rightarrow> scan_log \<Rightarrow> scan_log" where
  "null_user u l = (if sl_userId l = Some u then l\<lparr>sl_userId := None\<rparr> else l)"

text \<open>
  Deleting a user: \<open>Brand.user\<close>, \<open>File.user\<close>, \<open>Review.user\<close>, \<open>CustomerProfile.user\<close>
  and \<open>AdminProfile.user\<close> cascade, \<open>ScanLog.user\<close> is set to null. Deleting a row that
  does not exist is reported as \<open>NotFoundError\<close>.
\<close>

definition delete_user :: "store \<Rightarrow> ident \<Rightarrow> error + store" where
  "delete_user s u =
     (if u \<notin> user_ids s then Inl NotFoundError
      else
        let s1 = delete_brands_where (\<lambda>b. brand_userId b = u) s
        in Inr (s1\<lparr>users := filter (\<lambda>x. user_id x \<noteq> u) (users s1),
                    customerProfiles := filter (\<lambda>p. cp_userId p \<noteq> u) (customerProfiles s1),
                    adminProfiles := filter (\<lambda>p. ap_userId p \<noteq> u) (adminProfiles s1),
                    files := filter (\<lambda>f. file_userId f \<noteq> u) (files s1),
                    reviews := filter (\<lambda>r. review_userId r \<noteq> u) (reviews s1),
                    scanLogs := map (null_user u) (scanLogs s1)\<rparr>))"

definition delete_brand :: "store \<Rightarrow> ident \<Rightarrow> error + store" where
  "delete_brand s b =
     (if b \<notin> brand_ids s then Inl NotFoundError
      else Inr (delete_brands_where (\<lambda>x. brand_id x = b) s))"

definition delete_landing_page :: "store \<Rightarrow> ident \<Rightarrow> error + store" where
  "delete_landing_page s p =
     (if p \<notin> page_ids s then Inl NotFoundError
      else Inr (delete_landingPages_where (\<lambda>x. lp_id x = p) s))"

definition delete_qr_code :: "store \<Rightarrow> ident \<Rightarrow> error + store" where
  "delete_qr_code s q =
     (if q \<notin> qr_ids s then Inl NotFoundError
      else Inr (delete_qrCodes_where (\<lambda>x. qr_id x = q) s))"

definition delete_block :: "store \<Rightarrow> ident \<Rightarrow> error + store" where
  "delete_block s b =
     (if b \<notin> set (map block_id (blocks s)) then Inl NotFoundError
      else Inr (s\<lparr>blocks := filter (\<lambda>x. block_id x \<noteq> b) (blocks s)\<rparr>))"

subsection \<open>Creating rows\<close>

text \<open>
  A creation takes the columns without a default; \<open>@default\<close> fills the others. The
  values are converted to their column types first, so an integer outside the 32-bit
  range is refused (\<open>numeric value out of range\<close>, a \<open>ValidationError\<close>) before any
  constraint is looked at. A unique constraint is checked when the row is written, a
  foreign key afterwards, so a row that breaks both is reported as a conflict.
\<close>

record user_input =
  ui_email :: string
  ui_password :: string
  ui_role :: "Role option"
  ui_firstName :: "string option"
  ui_lastName :: "string option"
  ui_age :: "int option"
  ui_gender :: "string option"
  ui_phone :: "string option"
  ui_avatar :: "string option"

definition create_user :: "store \<Rightarrow> user_input \<Rightarrow> error + store" where
  "create_user s i =
     (if \<not> opt_int4 (ui_age i) then Inl ValidationError
      else if ui_email i \<in> set (map user_email (users s)) then Inl (ConflictError DuplicateEmail)
      else Inr (s\<lparr>users := users s @
                  [\<lparr>user_id = nextId s, user_email = ui_email i, user_password = ui_password i,
                    user_role = (case ui_role i of None \<Rightarrow> CUSTOMER | Some r \<Rightarrow> r),
                    user_firstName = ui_firstName i, user_lastName = ui_lastName i,
                    user_age = ui_age i, user_gender = ui_gender i, user_phone = ui_phone i,
                    user_avatar = ui_avatar i\<rparr>],
                nextId := Suc (nextId s)\<rparr>))"

definition create_customer_profile ::
  "store \<Rightarrow> ident \<Rightarrow> json option \<Rightarrow> string list \<Rightarrow> error + store" where
  "create_customer_profile s u prefs saved =
     (if u \<in> set (map cp_userId (customerProfiles s)) then Inl (ConflictError ProfileAlreadyExists)
      else if u \<notin> user_ids s then Inl ReferentialError
      else Inr (s\<lparr>customerProfiles := customerProfiles s @
                  [\<lparr>cp_id = nextId s, cp_userId = u, cp_preferences = prefs,
                    cp_savedBrands = saved\<rparr>],
                nextId := Suc (nextId s)\<rparr>))"

definition create_admin_profile ::
  "store \<Rightarrow> ident \<Rightarrow> string list \<Rightarrow> string option \<Rightarrow> error + store" where
  "create_admin_profile s u perms dept =
     (if u \<in> set (map ap_userId (adminProfiles s)) then Inl (ConflictError ProfileAlreadyExists)
      else if u \<notin> user_ids s then Inl ReferentialError
      else Inr (s\<lparr>adminProfiles := adminProfiles s @
                  [\<lparr>ap_id = nextId s, ap_userId = u, ap_permissions = perms,
                    ap_department = dept, ap_isSuperAdmin = False\<rparr>],
                nextId := Suc (nextId s)\<rparr>))"

text \<open>
  The owner of a brand may be missing from what the caller sends (the registration form
  passes \<open>null\<close> while the e-mail address is unverified), hence the option.
  \<open>userId\<close> carries only \<open>@@index\<close>, no \<open>@unique\<close>; the \<open>String\<close> columns are
  required, which rules out null and nothing else.
\<close>

record brand_input =
  bi_userId :: "ident option"
  bi_name :: string
  bi_logo :: string
  bi_tagline :: "string option"
  bi_description :: string
  bi_videoUrl :: "string option"
  bi_mission :: "string option"
  bi_vision :: "string option"
  bi_foundingYear :: "int option"
  bi_email :: string
  bi_phone :: "string option"
  bi_address :: "json option"
  bi_socialLinks :: "json option"
  bi_certifications :: "json option"
  bi_awards :: "json option"
  bi_pressFeatures :: "json option"
  bi_featuredProducts :: "json option"
  bi_newLaunchProducts :: "json option"
  bi_campaigns :: "json option"
  bi_settings :: "json option"

definition brand_row :: "ident \<Rightarrow> ident \<Rightarrow> brand_input \<Rightarrow> brand" where
  "brand_row k u i =
     \<lparr>brand_id = k, brand_userId = u, brand_name = bi_name i, brand_logo = bi_logo i,
      brand_tagline = bi_tagline i, brand_description = bi_description i,
      brand_videoUrl = bi_videoUrl i, brand_mission = bi_mission i, brand_vision = bi_vision i,
      brand_foundingYear = bi_foundingYear i, brand_email = bi_email i, brand_phone = bi_phone i,
      brand_address = bi_address i, brand_socialLinks = bi_socialLinks i,
      brand_certifications = bi_certifications i, brand_awards = bi_awards i,
      brand_pressFeatures = bi_pressFeatures i, brand_featuredProducts = bi_featuredProducts i,
      brand_newLaunchProducts = bi_newLaunchProducts i, brand_campaigns = bi_campaigns i,
      brand_isActive = True, brand_isVerified = False, brand_settings = bi_settings i\<rparr>"

definition create_brand :: "store \<Rightarrow> brand_input \<Rightarrow> error + store" where
  "create_brand s i =
     (if \<not> opt_int4 (bi_foundingYear i) then Inl ValidationError
      else
        case bi_userId i of
          None \<Rightarrow> Inl ValidationError
        | Some u \<Rightarrow>
            if u \<notin> user_ids s then Inl ReferentialError
            else Inr (s\<lparr>brands := brands s @ [brand_row (nextId s) u i],
                        nextId := Suc (nextId s)\<rparr>))"

text \<open>
  The storage layer takes any 32-bit \<open>rating\<close>: the schema has \<open>rating Int\<close> and no check.
\<close>

definition insert_review ::
  "store \<Rightarrow> ident \<Rightarrow> ident \<Rightarrow> int \<Rightarrow> string option \<Rightarrow> string list \<Rightarrow> error + store" where
  "insert_review s u b rating comment images =
     (if \<not> int4 rating then Inl ValidationError
      else if u \<notin> user_ids s \<or> b \<notin> brand_ids s then Inl ReferentialError
      else Inr (s\<lparr>reviews := reviews s @
                  [\<lparr>review_id = nextId s, review_userId = u, review_brandId = b,
                    review_rating = rating, review_comment = comment,
                    review_images = images\<rparr>],
                nextId := Suc (nextId s)\<rparr>))"

text \<open>
  Modelled from the spec: the caller that creates a review is not among the sources. The
  specification (Review: create) has it validate \<open>1..5\<close> before the insert and report an
  out-of-range rating as \<open>ValidationError\<close>.
\<close>

definition create_review ::
  "store \<Rightarrow> ident \<Rightarrow> ident \<Rightarrow> int \<Rightarrow> string option \<Rightarrow> string list \<Rightarrow> error + store" where
  "create_review s u b rating comment images =
     (if rating < 1 \<or> 5 < rating then Inl ValidationError
      else insert_review s u b rating comment images)"

record file_input =
  fi_userId :: ident
  fi_brandId :: ident
  fi_name :: string
  fi_type :: FileType
  fi_size :: int
  fi_mimeType :: string
  fi_url :: string
  fi_thumbnailUrl :: "string option"
  fi_metadata :: "json option"
  fi_folder :: "string option"
  fi_tags :: "string list"
  fi_description :: "string option"

definition register_file :: "store \<Rightarrow> file_input \<Rightarrow> error + store" where
  "register_file s i =
     (if \<not> int4 (fi_size i) then Inl ValidationError
      else if fi_userId i \<notin> user_ids s \<or> fi_brandId i \<notin> brand_ids s then Inl ReferentialError
      else Inr (s\<lparr>files := files s @
                  [\<lparr>file_id = nextId s, file_userId = fi_userId i, file_brandId = fi_brandId i,
                    file_name = fi_name i, file_type = fi_type i, file_size = fi_size i,
                    file_mimeType = fi_mimeType i, file_url = fi_url i,
                    file_thumbnailUrl = fi_thumbnailUrl i, file_metadata = fi_metadata i,
                    file_folder = fi_folder i, file_tags = fi_tags i,
                    file_description = fi_description i, file_usageCount = 0\<rparr>],
                nextId := Suc (nextId s)\<rparr>))"

definition create_landing_page ::
  "store \<Rightarrow> ident \<Rightarrow> string \<Rightarrow> string \<Rightarrow> json option \<Rightarrow> error + store" where
  "create_landing_page s b name slug settings =
     (if slug \<in> set (map lp_slug (landingPages s)) then Inl (ConflictError SlugConflict)
      else if b \<notin> brand_ids s then Inl ReferentialError
      else Inr (s\<lparr>landingPages := landingPages s @
                  [\<lparr>lp_id = nextId s, lp_brandId = b, lp_name = name, lp_slug = slug,
                    lp_status = DRAFT, lp_settings = settings\<rparr>],
                nextId := Suc (nextId s)\<rparr>))"

definition update_status :: "store \<Rightarrow> ident \<Rightarrow> PageStatus \<Rightarrow> error + store" where
  "update_status s p st =
     (if p \<notin> page_ids s then Inl NotFoundError
      else Inr (s\<lparr>landingPages :=
                  map (\<lambda>x. if lp_id x = p then x\<lparr>lp_status := st\<rparr> else x) (landingPages s)\<rparr>))"

definition insert_block :: "store \<Rightarrow> ident \<Rightarrow> string \<Rightarrow> int \<Rightarrow> json \<Rightarrow> error + store" where
  "insert_block s p ty ord content =
     (if \<not> int4 ord then Inl ValidationError
      else if p \<notin> page_ids s then Inl ReferentialError
      else Inr (s\<lparr>blocks := blocks s @
                  [\<lparr>block_id = nextId s, block_landingPageId = p, block_type = ty,
                    block_order = ord, block_content = content\<rparr>],
                nextId := Suc (nextId s)\<rparr>))"

text \<open>\<open>scanCount Int @default(0)\<close>: a new QR code starts with no scans.\<close>

definition create_qr_code ::
  "store \<Rightarrow> ident \<Rightarrow> ident \<Rightarrow> string \<Rightarrow> string \<Rightarrow> json option \<Rightarrow> error + store" where
  "create_qr_code s p b name payload settings =
     (if p \<notin> page_ids s \<or> b \<notin> brand_ids s then Inl ReferentialError
      else Inr (s\<lparr>qrCodes := qrCodes s @
                  [\<lparr>qr_id = nextId s, qr_landingPageId = p, qr_brandId = b, qr_name = name,
                    qr_data = payload, qr_settings = settings, qr_scanCount = 0\<rparr>],
                nextId := Suc (nextId s)\<rparr>))"

text \<open>
  Modelled from the spec: the write path that records a scan is not among the sources.
  The specification (Record a scan) has it insert one scan-log row and increment the
  owning QR code's counter as a single transaction, so either both happen or neither.
  The counter is an \<open>Int\<close> column: the increment past \<open>2147483647\<close> is refused by the
  store and the transaction is undone.
\<close>

definition record_scan ::
  "store \<Rightarrow> ident \<Rightarrow> ident option \<Rightarrow> string option \<Rightarrow> string option \<Rightarrow> json option
     \<Rightarrow> error + store" where
  "record_scan s q u ip agent loc =
     (if q \<notin> qr_ids s then Inl ReferentialError
      else if \<not> opt_in u (user_ids s) then Inl ReferentialError
      else if \<exists>x\<in>set (qrCodes s). qr_id x = q \<and> \<not> int4 (qr_scanCount x + 1) then Inl StoreError
      else Inr (s\<lparr>scanLogs := scanLogs s @
                  [\<lparr>sl_id = nextId s, sl_qrCodeId = q, sl_userId = u, sl_ipAddress = ip,
                    sl_userAgent = agent, sl_location = loc\<rparr>],
                qrCodes :=
                  map (\<lambda>x. if qr_id x = q then x\<lparr>qr_scanCount := qr_scanCount x + 1\<rparr> else x)
                    (qrCodes s),
                nextId := Suc (nextId s)\<rparr>))"

subsection \<open>Operations and the states they reach\<close>

datatype op =
    CreateUser user_input
  | CreateCustomerProfile ident "json option" "string list"
  | CreateAdminProfile ident "string list" "string option"
  | CreateBrand brand_input
  | CreateReview ident ident int "string option" "string list"
  | RegisterFile file_input
  | CreateLandingPage ident string string "json option"
  | UpdateStatus ident PageStatus
  | InsertBlock ident string int json
  | CreateQRCode ident ident string string "json option"
  | RecordScan ident "ident option" "string option" "string option" "json option"
  | DeleteUser ident
  | DeleteBrand ident
  | DeleteLandingPage ident
  | DeleteQRCode ident
  | DeleteBlock ident

fun apply_op :: "store \<Rightarrow> op \<Rightarrow> error + store" where
  "apply_op s (CreateUser i) = create_user s i"
| "apply_op s (CreateCustomerProfile u prefs saved) = create_customer_profile s u prefs saved"
| "apply_op s (CreateAdminProfile u perms dept) = create_admin_profile s u perms dept"
| "apply_op s (CreateBrand i) = create_brand s i"
| "apply_op s (CreateReview u b rating comment images) = create_review s u b rating comment images"
| "apply_op s (RegisterFile i) = register_file s i"
| "apply_op s (CreateLandingPage b name slug settings) = create_landing_page s b name slug settings"
| "apply_op s (UpdateStatus p st) = update_status s p st"
| "apply_op s (InsertBlock p ty ord content) = insert_block s p ty ord content"
| "apply_op s (CreateQRCode p b name payload settings) = create_qr_code s p b name payload settings"
| "apply_op s (RecordScan q u ip agent loc) = record_scan s q u ip agent loc"
| "apply_op s (DeleteUser u) = delete_user s u"
| "apply_op s (DeleteBrand b) = delete_brand s b"
| "apply_op s (DeleteLandingPage p) = delete_landing_page s p"
| "apply_op s (DeleteQRCode q) = delete_qr_code s q"
| "apply_op s (DeleteBlock b) = delete_block s b"

text \<open>An operation that fails leaves the store as it was.\<close>

definition step :: "store \<Rightarrow> op \<Rightarrow> store" where
  "step s x = (case apply_op s x of Inl e \<Rightarrow> s | Inr s' \<Rightarrow> s')"

text \<open>The state after a sequence of operations on the empty store.\<close>

definition run :: "op list \<Rightarrow> store" where
  "run xs = foldl step empty_store xs"

subsection \<open>A small store\<close>

text \<open>
  Alice (user 0) owns the brand Acme (2) with one landing page (3) and one QR code (4).
  Bob (user 1), a customer with a profile (7), scanned the code (log 5), and so did
  Alice herself while logged in (log 6).
\<close>

definition alice :: user_input where
  "alice = \<lparr>ui_email = ''alice@acme.test'', ui_password = ''h1'', ui_role = Some BRAND,
     ui_firstName = None, ui_lastName = None, ui_age = None, ui_gender = None,
     ui_phone = None, ui_avatar = None\<rparr>"

definition bob :: user_input where
  "bob = \<lparr>ui_email = ''bob@mail.test'', ui_password = ''h2'', ui_role = None,
     ui_firstName = None, ui_lastName = None, ui_age = None, ui_gender = None,
     ui_phone = None, ui_avatar = None\<rparr>"

definition acme :: "ident \<Rightarrow> brand_input" where
  "acme u = \<lparr>bi_userId = Some u, bi_name = ''Acme'', bi_logo = '''', bi_tagline = None,
     bi_description = '''', bi_videoUrl = None, bi_mission = None, bi_vision = None,
     bi_foundingYear = None, bi_email = ''a@b.com'', bi_phone = None, bi_address = None,
     bi_socialLinks = None, bi_certifications = None, bi_awards = None,
     bi_pressFeatures = None, bi_featuredProducts = None, bi_newLaunchProducts = None,
     bi_campaigns = None, bi_settings = None\<rparr>"

definition demo_ops :: "op list" where
  "demo_ops =
     [CreateUser alice, CreateUser bob, CreateBrand (acme 0),
      CreateLandingPage 2 ''Launch'' ''acme-launch'' None,
      CreateQRCode 3 2 ''poster'' ''/acme-launch'' None,
      RecordScan 4 (Some 1) None None None,
      RecordScan 4 (Some 0) None None None,
      CreateCustomerProfile 1 None []]"

definition demo_store :: store where
  "demo_store = run demo_ops"

text \<open>What every reachable store satisfies.\<close>

definition store_inv :: "store \<Rightarrow> bool" where
  "store_inv s =
     (keys_distinct s \<and> ids_below s \<and> ref_integrity s \<and> slugs_distinct s \<and>
      profiles_unique s \<and> counts_ok s \<and> ratings_ok s)"

text \<open>A sequence of operations all of which must succeed: the first failure is the result.\<close>

fun apply_all :: "store \<Rightarrow> op list \<Rightarrow> error + store" where
  "apply_all s [] = Inr s"
| "apply_all s (x # xs) = (case apply_op s x of Inl e \<Rightarrow> Inl e | Inr s' \<Rightarrow> apply_all s' xs)"

text \<open>One scan as the visitor's request carries it: who scanned, from where, with what.\<close>

record scan_request =
  sr_userId :: "ident option"
  sr_ipAddress :: "string option"
  sr_userAgent :: "string option"
  sr_location :: "json option"

definition scan_op :: "ident \<Rightarrow> scan_request \<Rightarrow> op" where
  "scan_op q r = RecordScan q (sr_userId r) (sr_ipAddress r) (sr_userAgent r) (sr_location r)"

definition anonymous_scan :: scan_request where
  "anonymous_scan = \<lparr>sr_userId = None, sr_ipAddress = None, sr_userAgent = None,
     sr_location = None\<rparr>"

section \<open>The brand forms and the hosted \<open>brands\<close> table\<close>

text \<open>
  The React forms do not go through the schema above: they write to a hosted table
  \<open>brands\<close> whose columns have other names (\<open>user_id\<close>, \<open>contact_email\<close>, ...). A row
  of that table maps column names to values; a text value is a JavaScript string and
  \<open>Number_of s\<close> stands for the JavaScript number \<open>Number(s)\<close>. The table's own
  constraints are not among the sources, so the writes take them as a parameter
  \<open>rejects\<close>: the SQLSTATE the table answers to a row, if it refuses it.
\<close>

datatype column_value =
    Undefined
  | Null
  | Text js_string
  | Number_of js_string
  | Texts "js_string list"
  | Object "(string \<times> js_string) list"

type_synonym row = "(string \<times> column_value) list"

type_synonym constraints = "row list \<Rightarrow> row \<Rightarrow> string option"


text \<open>
  \<open>.upsert(payload, { onConflict: 'user_id' })\<close>, that is
  \<open>INSERT ... ON CONFLICT (user_id) DO UPDATE\<close>: a row with the payload's \<open>user_id\<close>
  takes the payload's columns and keeps its others; without such a row the payload is
  inserted. A payload without a \<open>user_id\<close>, or with a null one, meets no row. The
  conflict is decided by a unique index on \<open>user_id\<close>, so in a table the service can
  hold at most one row meets the payload.
\<close>

definition set_columns :: "row \<Rightarrow> row \<Rightarrow> row" where
  "set_columns r p = p @ filter (\<lambda>(c, v). c \<notin> fst ` set p) r"

definition same_user :: "row \<Rightarrow> row \<Rightarrow> bool" where
  "same_user r p =
     (case map_of p ''user_id'' of
        None \<Rightarrow> False
      | Some v \<Rightarrow> v \<noteq> Null \<and> v \<noteq> Undefined \<and> map_of r ''user_id'' = Some v)"

definition upsert :: "constraints \<Rightarrow> row list \<Rightarrow> row \<Rightarrow> string + row list" where
  "upsert rejects tbl p =
     (case rejects tbl p of
        Some code \<Rightarrow> Inl code
      | None \<Rightarrow>
          if \<exists>r\<in>set tbl. same_user r p
          then Inr (map (\<lambda>r. if same_user r p then set_columns r p else r) tbl)
          else Inr (tbl @ [p]))"

subsection \<open>BrandProfileSection: handleSubmit\<close>

text \<open>
  The form state, as far as \<open>handleSubmit\<close> reads it. A field declared with \<open>?:\<close> may be
  \<open>undefined\<close>, which is \<open>None\<close>.
\<close>

record basic_info =
  basic_brandName :: js_string
  basic_tagline :: js_string
  basic_description :: js_string

record contact_info =
  contact_email :: js_string
  contact_phone :: js_string
  contact_address :: js_string

record social_links =
  social_website :: js_string
  social_facebook :: js_string
  social_instagram :: js_string
  social_linkedin :: js_string

record profile =
  basicInfo :: basic_info
  contactInfo :: contact_info
  socialLinks :: social_links
  gstNumber :: "js_string option"
  foundedYear :: "js_string option"
  hqLocation :: "js_string option"
  whatsappSupport :: "js_string option"
  supportEmail :: "js_string option"
  supportPhone :: "js_string option"
  teamMembers :: "js_string list option"
  productCategories :: "js_string list option"
  profile_logo :: "js_string option"
  profile_website :: "js_string option"

definition optional :: "js_string option \<Rightarrow> column_value" where
  "optional x = (case x of None \<Rightarrow> Undefined | Some s \<Rightarrow> Text s)"

definition non_empty_list :: "js_string list option \<Rightarrow> column_value" where
  "non_empty_list x = (case x of None \<Rightarrow> Null | Some xs \<Rightarrow> if xs = [] then Null else Texts xs)"

definition social_handles :: "social_links \<Rightarrow> column_value" where
  "social_handles l =
     Object [(''website'', social_website l), (''facebook'', social_facebook l),
             (''instagram'', social_instagram l), (''linkedin'', social_linkedin l)]"

definition updatePayload :: "js_string \<Rightarrow> js_string \<Rightarrow> profile \<Rightarrow> row" where
  "updatePayload uid now p =
     [(''user_id'', Text uid),
      (''name'', Text (basic_brandName (basicInfo p))),
      (''logo'', optional (profile_logo p)),
      (''tagline'', Text (basic_tagline (basicInfo p))),
      (''description'', Text (basic_description (basicInfo p))),
      (''website'', optional (profile_website p)),
      (''gst_number'', optional (gstNumber p)),
      (''founded_year'',
         (case foundedYear p of None \<Rightarrow> Null | Some y \<Rightarrow> if y = [] then Null else Number_of y)),
      (''hq_location'', optional (hqLocation p)),
      (''whatsapp_support'', optional (whatsappSupport p)),
      (''support_email'', optional (supportEmail p)),
      (''support_phone'', optional (supportPhone p)),
      (''team_members'', non_empty_list (teamMembers p)),
      (''product_categories'', non_empty_list (productCategories p)),
      (''email'', Text (contact_email (contactInfo p))),
      (''contact_email'', Text (contact_email (contactInfo p))),
      (''contact_mobile'', Text (contact_phone (contactInfo p))),
      (''contact_address'', Text (contact_address (contactInfo p))),
      (''social_handles'', social_handles (socialLinks p)),
      (''updated_at'', Text now)]"

text \<open>\<open>// Remove undefined/null/empty string fields\<close>\<close>

definition is_blank :: "column_value \<Rightarrow> bool" where
  "is_blank v = (v = Undefined \<or> v = Null \<or> v = Text [])"

definition remove_blank :: "row \<Rightarrow> row" where
  "remove_blank p = filter (\<lambda>(c, v). \<not> is_blank v) p"

datatype toast = Toast_error string | Toast_success string

text \<open>
  The outcome of a submit: the toast shown, the table afterwards and the address pushed
  to the history, if any. \<open>user\<close> is the signed-in user's id, \<open>now\<close> the ISO
  timestamp.
\<close>

definition handleSubmit ::
  "constraints \<Rightarrow> js_string option \<Rightarrow> js_string \<Rightarrow> profile \<Rightarrow> row list
     \<Rightarrow> toast \<times> row list \<times> js_string option" where
  "handleSubmit rejects user now p tbl =
     (case user of
        None \<Rightarrow> (Toast_error ''Please login to update your profile'', tbl, None)
      | Some uid \<Rightarrow>
          if basic_brandName (basicInfo p) = [] then (Toast_error ''Brand name is required'', tbl, None)
          else if contact_email (contactInfo p) = [] then (Toast_error ''Email is required'', tbl, None)
          else
            (case upsert rejects tbl (remove_blank (updatePayload uid now p)) of
               Inl code \<Rightarrow>
                 (if code = ''23505''
                  then Toast_error ''A profile with this email already exists''
                  else Toast_error ''Failed to update profile. Please try again.'', tbl, None)
             | Inr tbl' \<Rightarrow>
                 (Toast_success ''Profile updated successfully'', tbl',
                  Some (utf16 ''/brand/'' @ brandSlug (basic_brandName (basicInfo p))))))"

subsection \<open>RegisterForm: handleSubmit\<close>





subsection \<open>A stored brand and two form states\<close>

definition timestamp :: js_string where
  "timestamp = utf16 ''2025-01-01T00:00:00.000Z''"

definition accept_all :: constraints where
  "accept_all tbl r = None"

definition stored_brand :: row where
  "stored_brand =
     [(''user_id'', Text (utf16 ''u1'')), (''name'', Text (utf16 ''Acme'')), (''email'', Text (utf16 ''a@b.com'')),
      (''logo'', Text (utf16 ''https://cdn.test/acme.png'')), (''tagline'', Text (utf16 ''Since 1950'')),
      (''description'', Text (utf16 ''Anvils'')), (''status'', Text (utf16 ''pending''))]"

definition other_brand :: row where
  "other_brand =
     [(''user_id'', Text (utf16 ''u2'')), (''name'', Text (utf16 ''Bolt'')), (''email'', Text (utf16 ''b@c.com'')),
      (''logo'', Text []), (''description'', Text [])]"

definition edited_profile :: profile where
  "edited_profile =
     \<lparr>basicInfo = \<lparr>basic_brandName = utf16 ''Acme Corp'', basic_tagline = [],
                     basic_description = utf16 ''Anvils and rockets''\<rparr>,
      contactInfo = \<lparr>contact_email = utf16 ''a@b.com'', contact_phone = [], contact_address = []\<rparr>,
      socialLinks = \<lparr>social_website = [], social_facebook = [], social_instagram = [],
                      social_linkedin = []\<rparr>,
      gstNumber = Some [], foundedYear = Some [], hqLocation = Some [],
      whatsappSupport = Some [], supportEmail = Some [], supportPhone = Some [],
      teamMembers = Some [], productCategories = Some [],
      profile_logo = Some [], profile_website = Some []\<rparr>"


section \<open>Deleting a user\<close>

lemma delete_qrCodes_where_simps:
  "users (delete_qrCodes_where P s) = users s"
  "customerProfiles (delete_qrCodes_where P s) = customerProfiles s"
  "brands (delete_qrCodes_where P s) = brands s"
  "adminProfiles (delete_qrCodes_where P s) = adminProfiles s"
  "reviews (delete_qrCodes_where P s) = reviews s"
  "files (delete_qrCodes_where P s) = files s"
  "landingPages (delete_qrCodes_where P s) = landingPages s"
  "blocks (delete_qrCodes_where P s) = blocks s"
  "qrCodes (delete_qrCodes_where P s) = filter (\<lambda>q. \<not> P q) (qrCodes s)"
  "scanLogs (delete_qrCodes_where P s) =
     filter (\<lambda>l. sl_qrCodeId l \<notin> qr_id ` {q \<in> set (qrCodes s). P q}) (scanLogs s)"
  "nextId (delete_qrCodes_where P s) = nextId s"
  by (simp_all add: delete_qrCodes_where_def Let_def)

lemma delete_landingPages_where_simps:
  "users (delete_landingPages_where P s) = users s"
  "customerProfiles (delete_landingPages_where P s) = customerProfiles s"
  "brands (delete_landingPages_where P s) = brands s"
  "adminProfiles (delete_landingPages_where P s) = adminProfiles s"
  "reviews (delete_landingPages_where P s) = reviews s"
  "files (delete_landingPages_where P s) = files s"
  "landingPages (delete_landingPages_where P s) = filter (\<lambda>p. \<not> P p) (landingPages s)"
  "blocks (delete_landingPages_where P s) =
     filter (\<lambda>b. block_landingPageId b \<notin> lp_id ` {p \<in> set (landingPages s). P p}) (blocks s)"
  "qrCodes (delete_landingPages_where P s) =
     filter (\<lambda>q. qr_landingPageId q \<notin> lp_id ` {p \<in> set (landingPages s). P p}) (qrCodes s)"
  "scanLogs (delete_landingPages_where P s) =
     filter (\<lambda>l. sl_qrCodeId l \<notin> qr_id ` {q \<in> set (qrCodes s).
                qr_landingPageId q \<in> lp_id ` {p \<in> set (landingPages s). P p}}) (scanLogs s)"
  "nextId (delete_landingPages_where P s) = nextId s"
  by (simp_all add: delete_landingPages_where_def delete_qrCodes_where_simps Let_def)

lemma delete_brands_where_simps:
  "users (delete_brands_where P s) = users s"
  "customerProfiles (delete_brands_where P s) = customerProfiles s"
  "brands (delete_brands_where P s) = filter (\<lambda>b. \<not> P b) (brands s)"
  "adminProfiles (delete_brands_where P s) = adminProfiles s"
  "reviews (delete_brands_where P s) =
     filter (\<lambda>r. review_brandId r \<notin> brand_id ` {b \<in> set (brands s). P b}) (reviews s)"
  "files (delete_brands_where P s) =
     filter (\<lambda>f. file_brandId f \<notin> brand_id ` {b \<in> set (brands s). P b}) (files s)"
  "landingPages (delete_brands_where P s) =
     filter (\<lambda>p. lp_brandId p \<notin> brand_id ` {b \<in> set (brands s). P b}) (landingPages s)"
  "blocks (delete_brands_where P s) =
     filter (\<lambda>b. block_landingPageId b \<notin> lp_id ` {p \<in> set (landingPages s).
                lp_brandId p \<in> brand_id ` {b \<in> set (brands s). P b}}) (blocks s)"
  "qrCodes (delete_brands_where P s) = filter (\<lambda>q. \<not> removed_qr P s q) (qrCodes s)"
  "scanLogs (delete_brands_where P s) =
     filter (\<lambda>l. sl_qrCodeId l \<notin> qr_id ` {q \<in> set (qrCodes s). removed_qr P s q}) (scanLogs s)"
  "nextId (delete_brands_where P s) = nextId s"
  by (auto simp add: delete_brands_where_def delete_landingPages_where_simps
      delete_qrCodes_where_simps Let_def removed_qr_def intro!: filter_cong)

lemma opt_in_simps [simp]:
  "opt_in None A"
  "opt_in (Some v) A = (v \<in> A)"
  by (simp_all add: opt_in_def)

lemma ref_integrity_delete_qrCodes:
  "ref_integrity s \<Longrightarrow> ref_integrity (delete_qrCodes_where P s)"
  unfolding ref_integrity_def user_ids_def brand_ids_def page_ids_def qr_ids_def
  by (simp add: delete_qrCodes_where_simps) blast

lemma ref_integrity_delete_landingPages:
  assumes "ref_integrity s"
  shows "ref_integrity (delete_landingPages_where P s)"
proof -
  note r = assms [unfolded ref_integrity_def user_ids_def brand_ids_def page_ids_def qr_ids_def]
  let ?goneP = "lp_id ` {p \<in> set (landingPages s). P p}"
  have pg: "\<And>k. k \<in> lp_id ` set (landingPages s) \<Longrightarrow> k \<notin> ?goneP \<Longrightarrow>
      k \<in> lp_id ` {x \<in> set (landingPages s). \<not> P x}"
    by auto
  have qr: "\<And>k. k \<in> qr_id ` set (qrCodes s) \<Longrightarrow>
      k \<notin> qr_id ` {q \<in> set (qrCodes s). qr_landingPageId q \<in> ?goneP} \<Longrightarrow>
      k \<in> qr_id ` {x \<in> set (qrCodes s). qr_landingPageId x \<notin> ?goneP}"
    by auto
  show ?thesis
    unfolding ref_integrity_def user_ids_def brand_ids_def page_ids_def qr_ids_def
    using r pg qr by (simp add: delete_landingPages_where_simps)
qed

lemma ref_integrity_delete_brands:
  assumes "ref_integrity s"
  shows "ref_integrity (delete_brands_where P s)"
proof -
  note r = assms [unfolded ref_integrity_def user_ids_def brand_ids_def page_ids_def qr_ids_def]
  let ?goneB = "brand_id ` {b \<in> set (brands s). P b}"
  let ?goneP = "lp_id ` {p \<in> set (landingPages s). lp_brandId p \<in> ?goneB}"
  have br: "\<And>k. k \<in> brand_id ` set (brands s) \<Longrightarrow> k \<notin> ?goneB \<Longrightarrow>
      k \<in> brand_id ` {x \<in> set (brands s). \<not> P x}"
    by auto
  have pg: "\<And>k. k \<in> lp_id ` set (landingPages s) \<Longrightarrow> k \<notin> ?goneP \<Longrightarrow>
      k \<in> lp_id ` {x \<in> set (landingPages s). lp_brandId x \<notin> ?goneB}"
    by auto
  have qr: "\<And>k. k \<in> qr_id ` set (qrCodes s) \<Longrightarrow>
      k \<notin> qr_id ` {q \<in> set (qrCodes s). removed_qr P s q} \<Longrightarrow>
      k \<in> qr_id ` {x \<in> set (qrCodes s). \<not> removed_qr P s x}"
    by auto
  have rq: "\<And>q. \<not> removed_qr P s q \<Longrightarrow> qr_brandId q \<notin> ?goneB \<and> qr_landingPageId q \<notin> ?goneP"
    by (simp add: removed_qr_def)
  show ?thesis
    unfolding ref_integrity_def user_ids_def brand_ids_def page_ids_def qr_ids_def
    using r br pg qr rq by (simp add: delete_brands_where_simps)
qed

lemma null_user_simps [simp]:
  "sl_qrCodeId (null_user u l) = sl_qrCodeId l"
  "sl_id (null_user u l) = sl_id l"
  "sl_userId (null_user u l) \<noteq> Some u"
  "sl_userId l \<noteq> Some u \<Longrightarrow> null_user u l = l"
  by (simp_all add: null_user_def)

lemma opt_in_null_user:
  "opt_in (sl_userId l) (user_id ` set us) \<Longrightarrow>
   opt_in (sl_userId (null_user u l)) (user_id ` {x \<in> set us. user_id x \<noteq> u})"
  by (cases "sl_userId l") (auto simp: null_user_def)

lemma keys_distinct_delete_brands:
  "keys_distinct s \<Longrightarrow> keys_distinct (delete_brands_where P s)"
  by (simp add: keys_distinct_def delete_brands_where_simps distinct_map_filter)

lemma gone_iff:
  assumes "distinct (map f xs)" and "k \<in> f ` set xs"
  shows "k \<notin> f ` {x \<in> set xs. P x} \<longleftrightarrow> k \<in> f ` {x \<in> set xs. \<not> P x}"
proof -
  have inj: "inj_on f (set xs)" using assms(1) by (simp add: distinct_map)
  show ?thesis
  proof
    assume "k \<notin> f ` {x \<in> set xs. P x}"
    with assms(2) show "k \<in> f ` {x \<in> set xs. \<not> P x}" by auto
  next
    assume "k \<in> f ` {x \<in> set xs. \<not> P x}"
    then obtain x where x: "x \<in> set xs" "\<not> P x" "k = f x" by auto
    show "k \<notin> f ` {x \<in> set xs. P x}"
    proof
      assume "k \<in> f ` {x \<in> set xs. P x}"
      then obtain y where y: "y \<in> set xs" "P y" "k = f y" by auto
      with x inj have "x = y" by (auto dest: inj_onD)
      with x y show False by simp
    qed
  qed
qed

lemma delete_user_tables:
  assumes c: "consistent s" and u: "u \<in> user_ids s" and d: "delete_user s u = Inr s'"
  shows "users s' = filter (\<lambda>x. user_id x \<noteq> u) (users s)"
    and "customerProfiles s' = filter (\<lambda>p. cp_userId p \<noteq> u) (customerProfiles s)"
    and "adminProfiles s' = filter (\<lambda>p. ap_userId p \<noteq> u) (adminProfiles s)"
    and "brands s' = filter (\<lambda>b. brand_userId b \<noteq> u) (brands s)"
    and "files s' = filter (\<lambda>f. file_userId f \<noteq> u \<and> file_brandId f \<in> brand_ids s') (files s)"
    and "reviews s' =
           filter (\<lambda>r. review_userId r \<noteq> u \<and> review_brandId r \<in> brand_ids s') (reviews s)"
    and "landingPages s' = filter (\<lambda>p. lp_brandId p \<in> brand_ids s') (landingPages s)"
    and "blocks s' = filter (\<lambda>b. block_landingPageId b \<in> page_ids s') (blocks s)"
    and "qrCodes s' =
           filter (\<lambda>q. qr_brandId q \<in> brand_ids s' \<and> qr_landingPageId q \<in> page_ids s') (qrCodes s)"
    and "scanLogs s' = map (null_user u) (filter (\<lambda>l. sl_qrCodeId l \<in> qr_ids s') (scanLogs s))"
    and "nextId s' = nextId s"
proof -
  let ?P = "\<lambda>b. brand_userId b = u"
  let ?s1 = "delete_brands_where ?P s"
  let ?goneB = "brand_id ` {b \<in> set (brands s). ?P b}"
  let ?goneP = "lp_id ` {p \<in> set (landingPages s). lp_brandId p \<in> ?goneB}"
  from c have kd: "keys_distinct s" and ri: "ref_integrity s"
    by (simp_all add: consistent_def)
  note r = ri [unfolded ref_integrity_def user_ids_def brand_ids_def page_ids_def qr_ids_def]
  from kd have dB: "distinct (map brand_id (brands s))"
    and dP: "distinct (map lp_id (landingPages s))"
    and dQ: "distinct (map qr_id (qrCodes s))"
    by (simp_all add: keys_distinct_def)
  from d u have s': "s' = ?s1\<lparr>users := filter (\<lambda>x. user_id x \<noteq> u) (users ?s1),
      customerProfiles := filter (\<lambda>p. cp_userId p \<noteq> u) (customerProfiles ?s1),
      adminProfiles := filter (\<lambda>p. ap_userId p \<noteq> u) (adminProfiles ?s1),
      files := filter (\<lambda>f. file_userId f \<noteq> u) (files ?s1),
      reviews := filter (\<lambda>r. review_userId r \<noteq> u) (reviews ?s1),
      scanLogs := map (null_user u) (scanLogs ?s1)\<rparr>"
    by (simp add: delete_user_def Let_def)
  have T: "users s' = filter (\<lambda>x. user_id x \<noteq> u) (users s)"
    "customerProfiles s' = filter (\<lambda>p. cp_userId p \<noteq> u) (customerProfiles s)"
    "adminProfiles s' = filter (\<lambda>p. ap_userId p \<noteq> u) (adminProfiles s)"
    "nextId s' = nextId s"
    "brands s' = filter (\<lambda>b. brand_userId b \<noteq> u) (brands s)"
    "landingPages s' = filter (\<lambda>p. lp_brandId p \<notin> ?goneB) (landingPages s)"
    "files s' = filter (\<lambda>f. file_userId f \<noteq> u \<and> file_brandId f \<notin> ?goneB) (files s)"
    "reviews s' = filter (\<lambda>r. review_userId r \<noteq> u \<and> review_brandId r \<notin> ?goneB) (reviews s)"
    "blocks s' = filter (\<lambda>b. block_landingPageId b \<notin> ?goneP) (blocks s)"
    "qrCodes s' = filter (\<lambda>q. \<not> removed_qr ?P s q) (qrCodes s)"
    "scanLogs s' = map (null_user u)
       (filter (\<lambda>l. sl_qrCodeId l \<notin> qr_id ` {q \<in> set (qrCodes s). removed_qr ?P s q}) (scanLogs s))"
    unfolding s' by (simp_all add: delete_brands_where_simps conj_commute)
  from r have rF: "\<forall>f\<in>set (files s). file_brandId f \<in> brand_id ` set (brands s)"
    and rR: "\<forall>r\<in>set (reviews s). review_brandId r \<in> brand_id ` set (brands s)"
    and rP: "\<forall>p\<in>set (landingPages s). lp_brandId p \<in> brand_id ` set (brands s)"
    and rB: "\<forall>b\<in>set (blocks s). block_landingPageId b \<in> lp_id ` set (landingPages s)"
    and rQ: "\<forall>q\<in>set (qrCodes s). qr_landingPageId q \<in> lp_id ` set (landingPages s) \<and>
               qr_brandId q \<in> brand_id ` set (brands s)"
    and rL: "\<forall>l\<in>set (scanLogs s). sl_qrCodeId l \<in> qr_id ` set (qrCodes s)"
    by simp_all
  show "users s' = filter (\<lambda>x. user_id x \<noteq> u) (users s)"
    and "customerProfiles s' = filter (\<lambda>p. cp_userId p \<noteq> u) (customerProfiles s)"
    and "adminProfiles s' = filter (\<lambda>p. ap_userId p \<noteq> u) (adminProfiles s)"
    and "nextId s' = nextId s"
    and bs: "brands s' = filter (\<lambda>b. brand_userId b \<noteq> u) (brands s)"
    by (fact T)+
  have B: "\<And>k. k \<in> brand_id ` set (brands s) \<Longrightarrow> k \<notin> ?goneB \<longleftrightarrow> k \<in> brand_ids s'"
    using gone_iff [OF dB, of _ ?P] by (simp add: brand_ids_def bs)
  show ps: "landingPages s' = filter (\<lambda>p. lp_brandId p \<in> brand_ids s') (landingPages s)"
    unfolding T by (rule filter_cong [OF refl]) (use rP B in blast)
  have Pg: "\<And>k. k \<in> lp_id ` set (landingPages s) \<Longrightarrow> k \<notin> ?goneP \<longleftrightarrow> k \<in> page_ids s'"
  proof -
    fix k assume k: "k \<in> lp_id ` set (landingPages s)"
    have "k \<notin> ?goneP \<longleftrightarrow> k \<in> lp_id ` {p \<in> set (landingPages s). \<not> lp_brandId p \<in> ?goneB}"
      using gone_iff [OF dP k, of "\<lambda>p. lp_brandId p \<in> ?goneB"] .
    also have "lp_id ` {p \<in> set (landingPages s). \<not> lp_brandId p \<in> ?goneB} = page_ids s'"
      unfolding page_ids_def T by simp
    finally show "k \<notin> ?goneP \<longleftrightarrow> k \<in> page_ids s'" .
  qed
  show "files s' = filter (\<lambda>f. file_userId f \<noteq> u \<and> file_brandId f \<in> brand_ids s') (files s)"
    unfolding T by (rule filter_cong [OF refl]) (use rF B in blast)
  show "reviews s' =
      filter (\<lambda>r. review_userId r \<noteq> u \<and> review_brandId r \<in> brand_ids s') (reviews s)"
    unfolding T by (rule filter_cong [OF refl]) (use rR B in blast)
  show "blocks s' = filter (\<lambda>b. block_landingPageId b \<in> page_ids s') (blocks s)"
    unfolding T by (rule filter_cong [OF refl]) (use rB Pg in blast)
  have R: "\<And>q. q \<in> set (qrCodes s) \<Longrightarrow>
      \<not> removed_qr ?P s q \<longleftrightarrow> qr_brandId q \<in> brand_ids s' \<and> qr_landingPageId q \<in> page_ids s'"
    using rQ B Pg unfolding removed_qr_def by blast
  show qs: "qrCodes s' =
      filter (\<lambda>q. qr_brandId q \<in> brand_ids s' \<and> qr_landingPageId q \<in> page_ids s') (qrCodes s)"
    unfolding T by (rule filter_cong [OF refl]) (use R in blast)
  have Q: "\<And>k. k \<in> qr_id ` set (qrCodes s) \<Longrightarrow>
      k \<notin> qr_id ` {q \<in> set (qrCodes s). removed_qr ?P s q} \<longleftrightarrow> k \<in> qr_ids s'"
  proof -
    fix k assume k: "k \<in> qr_id ` set (qrCodes s)"
    have "qr_id ` {q \<in> set (qrCodes s). \<not> removed_qr ?P s q} = qr_ids s'"
      unfolding qr_ids_def T by simp
    then show "k \<notin> qr_id ` {q \<in> set (qrCodes s). removed_qr ?P s q} \<longleftrightarrow> k \<in> qr_ids s'"
      using gone_iff [OF dQ k, of "removed_qr ?P s"] by simp
  qed
  have "filter (\<lambda>l. sl_qrCodeId l \<notin> qr_id ` {q \<in> set (qrCodes s). removed_qr ?P s q}) (scanLogs s)
        = filter (\<lambda>l. sl_qrCodeId l \<in> qr_ids s') (scanLogs s)"
    by (rule filter_cong [OF refl]) (use rL Q in blast)
  then show "scanLogs s' = map (null_user u) (filter (\<lambda>l. sl_qrCodeId l \<in> qr_ids s') (scanLogs s))"
    unfolding T by simp
qed

lemma user_survives:
  "k \<in> user_id ` set us \<Longrightarrow> k \<noteq> u \<Longrightarrow> k \<in> user_id ` {x \<in> set us. user_id x \<noteq> u}"
  by auto

lemma ref_integrity_drop_user:
  assumes r1: "ref_integrity s1" and nb: "\<forall>b\<in>set (brands s1). brand_userId b \<noteq> u"
  shows "ref_integrity (s1\<lparr>users := filter (\<lambda>x. user_id x \<noteq> u) (users s1),
      customerProfiles := filter (\<lambda>p. cp_userId p \<noteq> u) (customerProfiles s1),
      adminProfiles := filter (\<lambda>p. ap_userId p \<noteq> u) (adminProfiles s1),
      files := filter (\<lambda>f. file_userId f \<noteq> u) (files s1),
      reviews := filter (\<lambda>r. review_userId r \<noteq> u) (reviews s1),
      scanLogs := map (null_user u) (scanLogs s1)\<rparr>)"
proof -
  note r = r1 [unfolded ref_integrity_def user_ids_def brand_ids_def page_ids_def qr_ids_def]
  show ?thesis
    unfolding ref_integrity_def user_ids_def brand_ids_def page_ids_def qr_ids_def
    using r nb by (simp add: user_survives opt_in_null_user)
qed

lemma keys_distinct_drop_user:
  assumes "keys_distinct s1"
  shows "keys_distinct (s1\<lparr>users := filter (\<lambda>x. user_id x \<noteq> u) (users s1),
      customerProfiles := filter (\<lambda>p. cp_userId p \<noteq> u) (customerProfiles s1),
      adminProfiles := filter (\<lambda>p. ap_userId p \<noteq> u) (adminProfiles s1),
      files := filter (\<lambda>f. file_userId f \<noteq> u) (files s1),
      reviews := filter (\<lambda>r. review_userId r \<noteq> u) (reviews s1),
      scanLogs := map (null_user u) (scanLogs s1)\<rparr>)"
  using assms by (simp add: keys_distinct_def distinct_map_filter comp_def)

lemma delete_user_Inr:
  "delete_user s u = Inr s' \<Longrightarrow>
   s' = (delete_brands_where (\<lambda>b. brand_userId b = u) s)
      \<lparr>users := filter (\<lambda>x. user_id x \<noteq> u) (users (delete_brands_where (\<lambda>b. brand_userId b = u) s)),
       customerProfiles := filter (\<lambda>p. cp_userId p \<noteq> u)
          (customerProfiles (delete_brands_where (\<lambda>b. brand_userId b = u) s)),
       adminProfiles := filter (\<lambda>p. ap_userId p \<noteq> u)
          (adminProfiles (delete_brands_where (\<lambda>b. brand_userId b = u) s)),
       files := filter (\<lambda>f. file_userId f \<noteq> u) (files (delete_brands_where (\<lambda>b. brand_userId b = u) s)),
       reviews := filter (\<lambda>r. review_userId r \<noteq> u)
          (reviews (delete_brands_where (\<lambda>b. brand_userId b = u) s)),
       scanLogs := map (null_user u) (scanLogs (delete_brands_where (\<lambda>b. brand_userId b = u) s))\<rparr>"
  by (simp add: delete_user_def Let_def split: if_splits)

lemma ref_integrity_delete_user:
  assumes "ref_integrity s" and "delete_user s u = Inr s'"
  shows "ref_integrity s'"
proof -
  have "ref_integrity (delete_brands_where (\<lambda>b. brand_userId b = u) s)"
    using assms(1) by (rule ref_integrity_delete_brands)
  moreover have "\<forall>b\<in>set (brands (delete_brands_where (\<lambda>b. brand_userId b = u) s)). brand_userId b \<noteq> u"
    by (simp add: delete_brands_where_simps)
  ultimately show ?thesis
    unfolding delete_user_Inr [OF assms(2)] by (rule ref_integrity_drop_user)
qed

lemma keys_distinct_delete_user:
  assumes "keys_distinct s" and "delete_user s u = Inr s'"
  shows "keys_distinct s'"
  unfolding delete_user_Inr [OF assms(2)]
  by (rule keys_distinct_drop_user) (rule keys_distinct_delete_brands [OF assms(1)])

lemma brand_row_simps [simp]:
  "brand_id (brand_row k u i) = k"
  "brand_userId (brand_row k u i) = u"
  by (simp_all add: brand_row_def)

lemma demo_store_eq:
  "demo_store =
     \<lparr>users =
        [\<lparr>user_id = 0, user_email = ''alice@acme.test'', user_password = ''h1'',
          user_role = BRAND, user_firstName = None, user_lastName = None, user_age = None,
          user_gender = None, user_phone = None, user_avatar = None\<rparr>,
         \<lparr>user_id = 1, user_email = ''bob@mail.test'', user_password = ''h2'',
          user_role = CUSTOMER, user_firstName = None, user_lastName = None, user_age = None,
          user_gender = None, user_phone = None, user_avatar = None\<rparr>],
      customerProfiles =
        [\<lparr>cp_id = 7, cp_userId = 1, cp_preferences = None, cp_savedBrands = []\<rparr>],
      brands = [brand_row 2 0 (acme 0)],
      adminProfiles = [], reviews = [], files = [],
      landingPages =
        [\<lparr>lp_id = 3, lp_brandId = 2, lp_name = ''Launch'', lp_slug = ''acme-launch'',
          lp_status = DRAFT, lp_settings = None\<rparr>],
      blocks = [],
      qrCodes =
        [\<lparr>qr_id = 4, qr_landingPageId = 3, qr_brandId = 2, qr_name = ''poster'',
          qr_data = ''/acme-launch'', qr_settings = None, qr_scanCount = 2\<rparr>],
      scanLogs =
        [\<lparr>sl_id = 5, sl_qrCodeId = 4, sl_userId = Some 1, sl_ipAddress = None,
          sl_userAgent = None, sl_location = None\<rparr>,
         \<lparr>sl_id = 6, sl_qrCodeId = 4, sl_userId = Some 0, sl_ipAddress = None,
          sl_userAgent = None, sl_location = None\<rparr>],
      nextId = 8\<rparr>"
  by (simp add: demo_store_def demo_ops_def run_def step_def alice_def bob_def acme_def
      empty_store_def create_user_def create_brand_def create_landing_page_def
      create_qr_code_def record_scan_def create_customer_profile_def user_ids_def brand_ids_def
      page_ids_def qr_ids_def opt_in_def int4_def opt_int4_def brand_row_def)

lemma consistent_demo_store: "consistent demo_store"
  by (simp add: demo_store_eq consistent_def keys_distinct_def ref_integrity_def user_ids_def
      brand_ids_def page_ids_def qr_ids_def)

text \<open>
  Claim C1, as the cascade rules have it. For every consistent store and every user in
  it, deleting the user succeeds and removes the user, both profiles, the brands the user
  owns and the files and reviews of the user or of such a brand; of the landing pages,
  blocks, QR codes and scan logs it keeps exactly those whose owner row is kept; no
  foreign key of the new store dangles. A scan log whose QR code is kept stays, with its
  user reference set to null when it named the deleted user.
\<close>

theorem delete_user_cascade:
  assumes "consistent s" and "u \<in> user_ids s"
  shows "\<exists>s'. delete_user s u = Inr s' \<and>
      users s' = filter (\<lambda>x. user_id x \<noteq> u) (users s) \<and>
      customerProfiles s' = filter (\<lambda>p. cp_userId p \<noteq> u) (customerProfiles s) \<and>
      adminProfiles s' = filter (\<lambda>p. ap_userId p \<noteq> u) (adminProfiles s) \<and>
      brands s' = filter (\<lambda>b. brand_userId b \<noteq> u) (brands s) \<and>
      files s' = filter (\<lambda>f. file_userId f \<noteq> u \<and> file_brandId f \<in> brand_ids s') (files s) \<and>
      reviews s' =
        filter (\<lambda>r. review_userId r \<noteq> u \<and> review_brandId r \<in> brand_ids s') (reviews s) \<and>
      landingPages s' = filter (\<lambda>p. lp_brandId p \<in> brand_ids s') (landingPages s) \<and>
      blocks s' = filter (\<lambda>b. block_landingPageId b \<in> page_ids s') (blocks s) \<and>
      qrCodes s' =
        filter (\<lambda>q. qr_brandId q \<in> brand_ids s' \<and> qr_landingPageId q \<in> page_ids s') (qrCodes s) \<and>
      scanLogs s' = map (null_user u) (filter (\<lambda>l. sl_qrCodeId l \<in> qr_ids s') (scanLogs s)) \<and>
      consistent s'"
proof -
  from assms(2) obtain s' where d: "delete_user s u = Inr s'"
    by (simp add: delete_user_def Let_def)
  from assms(1) have "keys_distinct s" "ref_integrity s"
    by (simp_all add: consistent_def)
  then have "consistent s'"
    using d keys_distinct_delete_user ref_integrity_delete_user by (simp add: consistent_def)
  with d delete_user_tables [OF assms d] show ?thesis by blast
qed

theorem delete_user_cascade_witness:
  "consistent demo_store \<and> 1 \<in> user_ids demo_store \<and>
   (\<exists>s'. delete_user demo_store 1 = Inr s' \<and> customerProfiles s' = [] \<and>
      brands s' = brands demo_store \<and> qrCodes s' = qrCodes demo_store \<and>
      scanLogs s' =
        [\<lparr>sl_id = 5, sl_qrCodeId = 4, sl_userId = None, sl_ipAddress = None,
          sl_userAgent = None, sl_location = None\<rparr>,
         \<lparr>sl_id = 6, sl_qrCodeId = 4, sl_userId = Some 0, sl_ipAddress = None,
          sl_userAgent = None, sl_location = None\<rparr>] \<and>
      consistent s')"
proof -
  have u: "1 \<in> user_ids demo_store"
    by (simp add: demo_store_eq user_ids_def)
  from delete_user_cascade [OF consistent_demo_store u] obtain s' where
    d: "delete_user demo_store 1 = Inr s'"
    and cp: "customerProfiles s' = filter (\<lambda>p. cp_userId p \<noteq> 1) (customerProfiles demo_store)"
    and b: "brands s' = filter (\<lambda>b. brand_userId b \<noteq> 1) (brands demo_store)"
    and p: "landingPages s' = filter (\<lambda>p. lp_brandId p \<in> brand_ids s') (landingPages demo_store)"
    and q: "qrCodes s' =
        filter (\<lambda>q. qr_brandId q \<in> brand_ids s' \<and> qr_landingPageId q \<in> page_ids s')
          (qrCodes demo_store)"
    and l: "scanLogs s' =
        map (null_user 1) (filter (\<lambda>l. sl_qrCodeId l \<in> qr_ids s') (scanLogs demo_store))"
    and c: "consistent s'"
    by blast
  have b': "brands s' = brands demo_store"
    unfolding b by (simp add: demo_store_eq)
  then have bi: "brand_ids s' = {2}"
    by (simp add: brand_ids_def demo_store_eq)
  have pi: "page_ids s' = {3}"
    unfolding page_ids_def p bi by (simp add: demo_store_eq)
  have q': "qrCodes s' = qrCodes demo_store"
    unfolding q bi pi by (simp add: demo_store_eq)
  then have qi: "qr_ids s' = {4}"
    by (simp add: qr_ids_def demo_store_eq)
  have "scanLogs s' =
        [\<lparr>sl_id = 5, sl_qrCodeId = 4, sl_userId = None, sl_ipAddress = None,
          sl_userAgent = None, sl_location = None\<rparr>,
         \<lparr>sl_id = 6, sl_qrCodeId = 4, sl_userId = Some 0, sl_ipAddress = None,
          sl_userAgent = None, sl_location = None\<rparr>]"
    unfolding l qi by (simp add: demo_store_eq null_user_def)
  moreover have "customerProfiles s' = []"
    unfolding cp by (simp add: demo_store_eq)
  ultimately show ?thesis
    using consistent_demo_store u d b' q' c by blast
qed

text \<open>
  Against claim C1 as written: Alice scanned her own QR code. Deleting Alice removes her
  brand, its QR code and with it both scan logs, among them the one that names her; it
  is not kept with a null user reference.
\<close>

theorem delete_user_drops_own_scan:
  "consistent demo_store \<and>
   scanLogs demo_store ! 1 =
     \<lparr>sl_id = 6, sl_qrCodeId = 4, sl_userId = Some 0, sl_ipAddress = None,
      sl_userAgent = None, sl_location = None\<rparr> \<and>
   delete_user demo_store 0 =
     Inr \<lparr>users =
          [\<lparr>user_id = 1, user_email = ''bob@mail.test'', user_password = ''h2'',
            user_role = CUSTOMER, user_firstName = None, user_lastName = None,
            user_age = None, user_gender = None, user_phone = None, user_avatar = None\<rparr>],
        customerProfiles =
          [\<lparr>cp_id = 7, cp_userId = 1, cp_preferences = None, cp_savedBrands = []\<rparr>],
        brands = [], adminProfiles = [], reviews = [], files = [], landingPages = [],
        blocks = [], qrCodes = [], scanLogs = [], nextId = 8\<rparr>"
proof -
  have "delete_user demo_store 0 =
     Inr \<lparr>users =
          [\<lparr>user_id = 1, user_email = ''bob@mail.test'', user_password = ''h2'',
            user_role = CUSTOMER, user_firstName = None, user_lastName = None,
            user_age = None, user_gender = None, user_phone = None, user_avatar = None\<rparr>],
        customerProfiles =
          [\<lparr>cp_id = 7, cp_userId = 1, cp_preferences = None, cp_savedBrands = []\<rparr>],
        brands = [], adminProfiles = [], reviews = [], files = [], landingPages = [],
        blocks = [], qrCodes = [], scanLogs = [], nextId = 8\<rparr>"
    by (simp add: demo_store_eq delete_user_def delete_brands_where_def
        delete_landingPages_where_def delete_qrCodes_where_def user_ids_def Let_def)
  moreover have "scanLogs demo_store ! 1 =
     \<lparr>sl_id = 6, sl_qrCodeId = 4, sl_userId = Some 0, sl_ipAddress = None,
      sl_userAgent = None, sl_location = None\<rparr>"
    by (simp add: demo_store_eq)
  ultimately show ?thesis
    using consistent_demo_store by simp
qed

section \<open>What the operations preserve\<close>

lemma fresh_notin: "(\<forall>x\<in>set xs. f x < (n::nat)) \<Longrightarrow> n \<notin> f ` set xs"
  by auto

lemma counts_ok_filter:
  assumes d: "distinct (map qr_id (qrCodes s))" and c: "counts_ok s"
    and q: "qrCodes s' = filter (\<lambda>q. \<not> R q) (qrCodes s)"
    and l: "scanLogs s' =
        filter (\<lambda>l. sl_qrCodeId l \<notin> qr_id ` {q \<in> set (qrCodes s). R q}) (scanLogs s)"
  shows "counts_ok s'"
  unfolding counts_ok_def scan_logs_of_def
proof
  fix x assume "x \<in> set (qrCodes s')"
  then have x: "x \<in> set (qrCodes s)" "\<not> R x" by (simp_all add: q)
  then have "qr_id x \<in> qr_id ` {q \<in> set (qrCodes s). \<not> R q}" by blast
  then have n: "qr_id x \<notin> qr_id ` {q \<in> set (qrCodes s). R q}"
    using gone_iff [OF d, of "qr_id x" R] x(1) by blast
  have "filter (\<lambda>l. sl_qrCodeId l = qr_id x) (scanLogs s')
        = filter (\<lambda>l. sl_qrCodeId l = qr_id x) (scanLogs s)"
    unfolding l filter_filter by (rule filter_cong [OF refl]) (metis n)
  with c x(1) show "qr_scanCount x = int (length (filter (\<lambda>l. sl_qrCodeId l = qr_id x) (scanLogs s')))"
    by (simp add: counts_ok_def scan_logs_of_def)
qed

lemma store_inv_delete_qrCodes:
  assumes "store_inv s"
  shows "store_inv (delete_qrCodes_where P s)"
proof -
  from assms have d: "distinct (map qr_id (qrCodes s))" and c: "counts_ok s"
    by (simp_all add: store_inv_def keys_distinct_def)
  have "counts_ok (delete_qrCodes_where P s)"
    using d c by (rule counts_ok_filter) (simp_all add: delete_qrCodes_where_simps)
  moreover have "ref_integrity (delete_qrCodes_where P s)"
    using assms by (simp add: store_inv_def ref_integrity_delete_qrCodes)
  moreover have "keys_distinct (delete_qrCodes_where P s)" "ids_below (delete_qrCodes_where P s)"
    "slugs_distinct (delete_qrCodes_where P s)" "profiles_unique (delete_qrCodes_where P s)"
    "ratings_ok (delete_qrCodes_where P s)"
    using assms
    by (simp_all add: store_inv_def keys_distinct_def ids_below_def slugs_distinct_def
        profiles_unique_def ratings_ok_def delete_qrCodes_where_simps distinct_map_filter)
  ultimately show ?thesis by (simp add: store_inv_def)
qed

lemma store_inv_delete_landingPages:
  assumes "store_inv s"
  shows "store_inv (delete_landingPages_where P s)"
proof -
  from assms have d: "distinct (map qr_id (qrCodes s))" and c: "counts_ok s"
    by (simp_all add: store_inv_def keys_distinct_def)
  have "counts_ok (delete_landingPages_where P s)"
    using d c by (rule counts_ok_filter) (simp_all add: delete_landingPages_where_simps)
  moreover have "ref_integrity (delete_landingPages_where P s)"
    using assms by (simp add: store_inv_def ref_integrity_delete_landingPages)
  moreover have "keys_distinct (delete_landingPages_where P s)"
    "ids_below (delete_landingPages_where P s)"
    "slugs_distinct (delete_landingPages_where P s)" "profiles_unique (delete_landingPages_where P s)"
    "ratings_ok (delete_landingPages_where P s)"
    using assms
    by (simp_all add: store_inv_def keys_distinct_def ids_below_def slugs_distinct_def
        profiles_unique_def ratings_ok_def delete_landingPages_where_simps distinct_map_filter)
  ultimately show ?thesis by (simp add: store_inv_def)
qed

lemma store_inv_delete_brands:
  assumes "store_inv s"
  shows "store_inv (delete_brands_where P s)"
proof -
  from assms have d: "distinct (map qr_id (qrCodes s))" and c: "counts_ok s"
    by (simp_all add: store_inv_def keys_distinct_def)
  have "counts_ok (delete_brands_where P s)"
    using d c by (rule counts_ok_filter) (simp_all add: delete_brands_where_simps)
  moreover have "ref_integrity (delete_brands_where P s)"
    using assms by (simp add: store_inv_def ref_integrity_delete_brands)
  moreover have "keys_distinct (delete_brands_where P s)"
    "ids_below (delete_brands_where P s)"
    "slugs_distinct (delete_brands_where P s)" "profiles_unique (delete_brands_where P s)"
    "ratings_ok (delete_brands_where P s)"
    using assms
    by (simp_all add: store_inv_def keys_distinct_def ids_below_def slugs_distinct_def
        profiles_unique_def ratings_ok_def delete_brands_where_simps distinct_map_filter)
  ultimately show ?thesis by (simp add: store_inv_def)
qed

lemma store_inv_delete_user:
  assumes "store_inv s" and d: "delete_user s u = Inr s'"
  shows "store_inv s'"
proof -
  let ?s1 = "delete_brands_where (\<lambda>b. brand_userId b = u) s"
  have i1: "store_inv ?s1" using assms(1) by (rule store_inv_delete_brands)
  from assms(1) have "keys_distinct s" "ref_integrity s" by (simp_all add: store_inv_def)
  then have "keys_distinct s'" "ref_integrity s'"
    using d keys_distinct_delete_user ref_integrity_delete_user by blast+
  moreover have "ids_below s'" "slugs_distinct s'" "profiles_unique s'" "counts_ok s'" "ratings_ok s'"
    using i1 unfolding delete_user_Inr [OF d]
    by (simp_all add: store_inv_def ids_below_def slugs_distinct_def profiles_unique_def
        counts_ok_def scan_logs_of_def ratings_ok_def distinct_map_filter comp_def)
  ultimately show ?thesis by (simp add: store_inv_def)
qed

lemma no_logs_for_fresh:
  assumes "\<forall>l\<in>set ls. sl_qrCodeId l \<in> qr_id ` set qs" and "\<forall>x\<in>set qs. qr_id x < (n::nat)"
  shows "filter (\<lambda>l. sl_qrCodeId l = n) ls = []"
proof -
  have "n \<notin> qr_id ` set qs" using assms(2) by (rule fresh_notin)
  with assms(1) show ?thesis by (auto simp: filter_empty_conv)
qed

lemma create_user_frame:
  assumes "create_user s i = Inr s'"
  shows "\<exists>r. users s' = users s @ [r] \<and> user_id r = nextId s"
    and "customerProfiles s' = customerProfiles s"
    and "brands s' = brands s"
    and "adminProfiles s' = adminProfiles s"
    and "reviews s' = reviews s"
    and "files s' = files s"
    and "landingPages s' = landingPages s"
    and "blocks s' = blocks s"
    and "qrCodes s' = qrCodes s"
    and "scanLogs s' = scanLogs s"
    and "nextId s' = Suc (nextId s)"
  using assms
  by (auto simp: create_user_def user_ids_def brand_ids_def page_ids_def qr_ids_def
      split: if_splits option.splits)

lemma create_user_inv:
  assumes "store_inv s" and c: "create_user s i = Inr s'"
  shows "store_inv s'"
proof -
  note F = create_user_frame [OF c]
  from F(1) obtain r where r: "users s' = users s @ [r]" "user_id r = nextId s"
    by blast
  show ?thesis
    using assms(1)
    unfolding store_inv_def keys_distinct_def ids_below_def ref_integrity_def slugs_distinct_def
      profiles_unique_def counts_ok_def ratings_ok_def user_ids_def brand_ids_def page_ids_def
      qr_ids_def scan_logs_of_def F(2-) r(1)
    by (auto simp: r(2-) less_Suc_eq fresh_notin opt_in_def split: option.splits)
qed

lemma create_customer_profile_frame:
  assumes "create_customer_profile s u prefs saved = Inr s'"
  shows "\<exists>r. customerProfiles s' = customerProfiles s @ [r] \<and> cp_id r = nextId s \<and> cp_userId r \<in> user_id ` set (users s) \<and> cp_userId r \<notin> cp_userId ` set (customerProfiles s)"
    and "users s' = users s"
    and "brands s' = brands s"
    and "adminProfiles s' = adminProfiles s"
    and "reviews s' = reviews s"
    and "files s' = files s"
    and "landingPages s' = landingPages s"
    and "blocks s' = blocks s"
    and "qrCodes s' = qrCodes s"
    and "scanLogs s' = scanLogs s"
    and "nextId s' = Suc (nextId s)"
  using assms
  by (auto simp: create_customer_profile_def user_ids_def brand_ids_def page_ids_def qr_ids_def
      split: if_splits option.splits)

lemma create_customer_profile_inv:
  assumes "store_inv s" and c: "create_customer_profile s u prefs saved = Inr s'"
  shows "store_inv s'"
proof -
  note F = create_customer_profile_frame [OF c]
  from F(1) obtain r where r: "customerProfiles s' = customerProfiles s @ [r]" "cp_id r = nextId s"
    "cp_userId r \<in> user_id ` set (users s)"
    "cp_userId r \<notin> cp_userId ` set (customerProfiles s)"
    by blast
  show ?thesis
    using assms(1)
    unfolding store_inv_def keys_distinct_def ids_below_def ref_integrity_def slugs_distinct_def
      profiles_unique_def counts_ok_def ratings_ok_def user_ids_def brand_ids_def page_ids_def
      qr_ids_def scan_logs_of_def F(2-) r(1)
    by (auto simp: r(2-) less_Suc_eq fresh_notin opt_in_def split: option.splits)
qed

lemma create_admin_profile_frame:
  assumes "create_admin_profile s u perms dept = Inr s'"
  shows "\<exists>r. adminProfiles s' = adminProfiles s @ [r] \<and> ap_id r = nextId s \<and> ap_userId r \<in> user_id ` set (users s) \<and> ap_userId r \<notin> ap_userId ` set (adminProfiles s)"
    and "users s' = users s"
    and "customerProfiles s' = customerProfiles s"
    and "brands s' = brands s"
    and "reviews s' = reviews s"
    and "files s' = files s"
    and "landingPages s' = landingPages s"
    and "blocks s' = blocks s"
    and "qrCodes s' = qrCodes s"
    and "scanLogs s' = scanLogs s"
    and "nextId s' = Suc (nextId s)"
  using assms
  by (auto simp: create_admin_profile_def user_ids_def brand_ids_def page_ids_def qr_ids_def
      split: if_splits option.splits)

lemma create_admin_profile_inv:
  assumes "store_inv s" and c: "create_admin_profile s u perms dept = Inr s'"
  shows "store_inv s'"
proof -
  note F = create_admin_profile_frame [OF c]
  from F(1) obtain r where r: "adminProfiles s' = adminProfiles s @ [r]" "ap_id r = nextId s"
    "ap_userId r \<in> user_id ` set (users s)"
    "ap_userId r \<notin> ap_userId ` set (adminProfiles s)"
    by blast
  show ?thesis
    using assms(1)
    unfolding store_inv_def keys_distinct_def ids_below_def ref_integrity_def slugs_distinct_def
      profiles_unique_def counts_ok_def ratings_ok_def user_ids_def brand_ids_def page_ids_def
      qr_ids_def scan_logs_of_def F(2-) r(1)
    by (auto simp: r(2-) less_Suc_eq fresh_notin opt_in_def split: option.splits)
qed

lemma create_brand_frame:
  assumes "create_brand s i = Inr s'"
  shows "\<exists>r. brands s' = brands s @ [r] \<and> brand_id r = nextId s \<and> brand_userId r \<in> user_id ` set (users s)"
    and "users s' = users s"
    and "customerProfiles s' = customerProfiles s"
    and "adminProfiles s' = adminProfiles s"
    and "reviews s' = reviews s"
    and "files s' = files s"
    and "landingPages s' = landingPages s"
    and "blocks s' = blocks s"
    and "qrCodes s' = qrCodes s"
    and "scanLogs s' = scanLogs s"
    and "nextId s' = Suc (nextId s)"
  using assms
  by (auto simp: create_brand_def brand_row_def user_ids_def brand_ids_def page_ids_def qr_ids_def
      split: if_splits option.splits)

lemma create_brand_inv:
  assumes "store_inv s" and c: "create_brand s i = Inr s'"
  shows "store_inv s'"
proof -
  note F = create_brand_frame [OF c]
  from F(1) obtain r where r: "brands s' = brands s @ [r]" "brand_id r = nextId s"
    "brand_userId r \<in> user_id ` set (users s)"
    by blast
  show ?thesis
    using assms(1)
    unfolding store_inv_def keys_distinct_def ids_below_def ref_integrity_def slugs_distinct_def
      profiles_unique_def counts_ok_def ratings_ok_def user_ids_def brand_ids_def page_ids_def
      qr_ids_def scan_logs_of_def F(2-) r(1)
    by (auto simp: r(2-) less_Suc_eq fresh_notin opt_in_def split: option.splits)
qed

lemma create_review_frame:
  assumes "create_review s u b rating comment images = Inr s'"
  shows "\<exists>r. reviews s' = reviews s @ [r] \<and> review_id r = nextId s \<and> review_userId r \<in> user_id ` set (users s) \<and> review_brandId r \<in> brand_id ` set (brands s) \<and> 1 \<le> review_rating r \<and> review_rating r \<le> 5"
    and "users s' = users s"
    and "customerProfiles s' = customerProfiles s"
    and "brands s' = brands s"
    and "adminProfiles s' = adminProfiles s"
    and "files s' = files s"
    and "landingPages s' = landingPages s"
    and "blocks s' = blocks s"
    and "qrCodes s' = qrCodes s"
    and "scanLogs s' = scanLogs s"
    and "nextId s' = Suc (nextId s)"
  using assms
  by (auto simp: create_review_def insert_review_def user_ids_def brand_ids_def page_ids_def qr_ids_def
      split: if_splits option.splits)

lemma create_review_inv:
  assumes "store_inv s" and c: "create_review s u b rating comment images = Inr s'"
  shows "store_inv s'"
proof -
  note F = create_review_frame [OF c]
  from F(1) obtain r where r: "reviews s' = reviews s @ [r]" "review_id r = nextId s"
    "review_userId r \<in> user_id ` set (users s)"
    "review_brandId r \<in> brand_id ` set (brands s)"
    "1 \<le> review_rating r"
    "review_rating r \<le> 5"
    by blast
  show ?thesis
    using assms(1)
    unfolding store_inv_def keys_distinct_def ids_below_def ref_integrity_def slugs_distinct_def
      profiles_unique_def counts_ok_def ratings_ok_def user_ids_def brand_ids_def page_ids_def
      qr_ids_def scan_logs_of_def F(2-) r(1)
    by (auto simp: r(2-) less_Suc_eq fresh_notin opt_in_def split: option.splits)
qed

lemma register_file_frame:
  assumes "register_file s i = Inr s'"
  shows "\<exists>r. files s' = files s @ [r] \<and> file_id r = nextId s \<and> file_userId r \<in> user_id ` set (users s) \<and> file_brandId r \<in> brand_id ` set (brands s)"
    and "users s' = users s"
    and "customerProfiles s' = customerProfiles s"
    and "brands s' = brands s"
    and "adminProfiles s' = adminProfiles s"
    and "reviews s' = reviews s"
    and "landingPages s' = landingPages s"
    and "blocks s' = blocks s"
    and "qrCodes s' = qrCodes s"
    and "scanLogs s' = scanLogs s"
    and "nextId s' = Suc (nextId s)"
  using assms
  by (auto simp: register_file_def user_ids_def brand_ids_def page_ids_def qr_ids_def
      split: if_splits option.splits)

lemma register_file_inv:
  assumes "store_inv s" and c: "register_file s i = Inr s'"
  shows "store_inv s'"
proof -
  note F = register_file_frame [OF c]
  from F(1) obtain r where r: "files s' = files s @ [r]" "file_id r = nextId s"
    "file_userId r \<in> user_id ` set (users s)"
    "file_brandId r \<in> brand_id ` set (brands s)"
    by blast
  show ?thesis
    using assms(1)
    unfolding store_inv_def keys_distinct_def ids_below_def ref_integrity_def slugs_distinct_def
      profiles_unique_def counts_ok_def ratings_ok_def user_ids_def brand_ids_def page_ids_def
      qr_ids_def scan_logs_of_def F(2-) r(1)
    by (auto simp: r(2-) less_Suc_eq fresh_notin opt_in_def split: option.splits)
qed

lemma create_landing_page_frame:
  assumes "create_landing_page s b name slug settings = Inr s'"
  shows "\<exists>r. landingPages s' = landingPages s @ [r] \<and> lp_id r = nextId s \<and> lp_brandId r \<in> brand_id ` set (brands s) \<and> lp_slug r \<notin> lp_slug ` set (landingPages s)"
    and "users s' = users s"
    and "customerProfiles s' = customerProfiles s"
    and "brands s' = brands s"
    and "adminProfiles s' = adminProfiles s"
    and "reviews s' = reviews s"
    and "files s' = files s"
    and "blocks s' = blocks s"
    and "qrCodes s' = qrCodes s"
    and "scanLogs s' = scanLogs s"
    and "nextId s' = Suc (nextId s)"
  using assms
  by (auto simp: create_landing_page_def user_ids_def brand_ids_def page_ids_def qr_ids_def
      split: if_splits option.splits)

lemma create_landing_page_inv:
  assumes "store_inv s" and c: "create_landing_page s b name slug settings = Inr s'"
  shows "store_inv s'"
proof -
  note F = create_landing_page_frame [OF c]
  from F(1) obtain r where r: "landingPages s' = landingPages s @ [r]" "lp_id r = nextId s"
    "lp_brandId r \<in> brand_id ` set (brands s)"
    "lp_slug r \<notin> lp_slug ` set (landingPages s)"
    by blast
  show ?thesis
    using assms(1)
    unfolding store_inv_def keys_distinct_def ids_below_def ref_integrity_def slugs_distinct_def
      profiles_unique_def counts_ok_def ratings_ok_def user_ids_def brand_ids_def page_ids_def
      qr_ids_def scan_logs_of_def F(2-) r(1)
    by (auto simp: r(2-) less_Suc_eq fresh_notin opt_in_def split: option.splits)
qed

lemma insert_block_frame:
  assumes "insert_block s p ty ord content = Inr s'"
  shows "\<exists>r. blocks s' = blocks s @ [r] \<and> block_id r = nextId s \<and> block_landingPageId r \<in> lp_id ` set (landingPages s)"
    and "users s' = users s"
    and "customerProfiles s' = customerProfiles s"
    and "brands s' = brands s"
    and "adminProfiles s' = adminProfiles s"
    and "reviews s' = reviews s"
    and "files s' = files s"
    and "landingPages s' = landingPages s"
    and "qrCodes s' = qrCodes s"
    and "scanLogs s' = scanLogs s"
    and "nextId s' = Suc (nextId s)"
  using assms
  by (auto simp: insert_block_def user_ids_def brand_ids_def page_ids_def qr_ids_def
      split: if_splits option.splits)

lemma insert_block_inv:
  assumes "store_inv s" and c: "insert_block s p ty ord content = Inr s'"
  shows "store_inv s'"
proof -
  note F = insert_block_frame [OF c]
  from F(1) obtain r where r: "blocks s' = blocks s @ [r]" "block_id r = nextId s"
    "block_landingPageId r \<in> lp_id ` set (landingPages s)"
    by blast
  show ?thesis
    using assms(1)
    unfolding store_inv_def keys_distinct_def ids_below_def ref_integrity_def slugs_distinct_def
      profiles_unique_def counts_ok_def ratings_ok_def user_ids_def brand_ids_def page_ids_def
      qr_ids_def scan_logs_of_def F(2-) r(1)
    by (auto simp: r(2-) less_Suc_eq fresh_notin opt_in_def split: option.splits)
qed

lemma create_qr_code_frame:
  assumes "create_qr_code s p b name payload settings = Inr s'"
  shows "\<exists>r. qrCodes s' = qrCodes s @ [r] \<and> qr_id r = nextId s \<and> qr_landingPageId r \<in> lp_id ` set (landingPages s) \<and> qr_brandId r \<in> brand_id ` set (brands s) \<and> qr_scanCount r = 0"
    and "users s' = users s"
    and "customerProfiles s' = customerProfiles s"
    and "brands s' = brands s"
    and "adminProfiles s' = adminProfiles s"
    and "reviews s' = reviews s"
    and "files s' = files s"
    and "landingPages s' = landingPages s"
    and "blocks s' = blocks s"
    and "scanLogs s' = scanLogs s"
    and "nextId s' = Suc (nextId s)"
  using assms
  by (auto simp: create_qr_code_def user_ids_def brand_ids_def page_ids_def qr_ids_def
      split: if_splits option.splits)

lemma create_qr_code_inv:
  assumes "store_inv s" and c: "create_qr_code s p b name payload settings = Inr s'"
  shows "store_inv s'"
proof -
  note F = create_qr_code_frame [OF c]
  from F(1) obtain r where r: "qrCodes s' = qrCodes s @ [r]" "qr_id r = nextId s"
    "qr_landingPageId r \<in> lp_id ` set (landingPages s)"
    "qr_brandId r \<in> brand_id ` set (brands s)"
    "qr_scanCount r = 0"
    by blast
  have nl: "filter (\<lambda>l. sl_qrCodeId l = nextId s) (scanLogs s) = []"
    using assms(1)
    by (intro no_logs_for_fresh [of _ "qrCodes s"])
       (simp_all add: store_inv_def ref_integrity_def ids_below_def qr_ids_def)
  show ?thesis
    using assms(1)
    unfolding store_inv_def keys_distinct_def ids_below_def ref_integrity_def slugs_distinct_def
      profiles_unique_def counts_ok_def ratings_ok_def user_ids_def brand_ids_def page_ids_def
      qr_ids_def scan_logs_of_def F(2-) r(1)
    by (auto simp: r(2-) less_Suc_eq fresh_notin opt_in_def nl split: option.splits)
qed

lemma update_status_inv:
  assumes "store_inv s" and c: "update_status s p st = Inr s'"
  shows "store_inv s'"
proof -
  define f :: "landing_page \<Rightarrow> landing_page" where "f = (\<lambda>x. if lp_id x = p then x\<lparr>lp_status := st\<rparr> else x)"
  from c have s': "s' = s\<lparr>landingPages := map f (landingPages s)\<rparr>"
    by (simp add: update_status_def f_def split: if_splits)
  have f: "\<And>x. lp_id (f x) = lp_id x" "\<And>x. lp_slug (f x) = lp_slug x"
    "\<And>x. lp_brandId (f x) = lp_brandId x"
    by (simp_all add: f_def)
  show ?thesis
    using assms(1)
    unfolding s' store_inv_def keys_distinct_def ids_below_def ref_integrity_def slugs_distinct_def
      profiles_unique_def counts_ok_def ratings_ok_def user_ids_def brand_ids_def page_ids_def
      qr_ids_def scan_logs_of_def
    by (simp add: f image_image comp_def)
qed

lemma delete_block_inv:
  assumes "store_inv s" and c: "delete_block s b = Inr s'"
  shows "store_inv s'"
proof -
  from c have s': "s' = s\<lparr>blocks := filter (\<lambda>x. block_id x \<noteq> b) (blocks s)\<rparr>"
    by (simp add: delete_block_def split: if_splits)
  show ?thesis
    using assms(1)
    unfolding s' store_inv_def keys_distinct_def ids_below_def ref_integrity_def slugs_distinct_def
      profiles_unique_def counts_ok_def ratings_ok_def user_ids_def brand_ids_def page_ids_def
      qr_ids_def scan_logs_of_def
    by (simp add: distinct_map_filter)
qed

lemma record_scan_inv:
  assumes "store_inv s" and c: "record_scan s q u ip agent loc = Inr s'"
  shows "store_inv s'"
proof -
  define f :: "qr_code \<Rightarrow> qr_code" where "f = (\<lambda>x. if qr_id x = q then x\<lparr>qr_scanCount := qr_scanCount x + 1\<rparr> else x)"
  define l :: scan_log where "l = \<lparr>sl_id = nextId s, sl_qrCodeId = q, sl_userId = u, sl_ipAddress = ip,
              sl_userAgent = agent, sl_location = loc\<rparr>"
  from c have s': "s' = s\<lparr>scanLogs := scanLogs s @ [l], qrCodes := map f (qrCodes s),
      nextId := Suc (nextId s)\<rparr>"
    and q: "q \<in> qr_id ` set (qrCodes s)" and u: "opt_in u (user_id ` set (users s))"
    by (simp_all add: record_scan_def qr_ids_def user_ids_def f_def l_def split: if_splits)
  have f: "\<And>x. qr_id (f x) = qr_id x" "\<And>x. qr_landingPageId (f x) = qr_landingPageId x"
    "\<And>x. qr_brandId (f x) = qr_brandId x"
    "\<And>x. qr_scanCount (f x) = (if qr_id x = q then qr_scanCount x + 1 else qr_scanCount x)"
    by (simp_all add: f_def)
  have l: "sl_id l = nextId s" "sl_qrCodeId l = q" "sl_userId l = u"
    by (simp_all add: l_def)
  show ?thesis
    using assms(1) q u
    unfolding s' store_inv_def keys_distinct_def ids_below_def ref_integrity_def slugs_distinct_def
      profiles_unique_def counts_ok_def ratings_ok_def user_ids_def brand_ids_def page_ids_def
      qr_ids_def scan_logs_of_def
    by (auto simp: f l image_image comp_def less_Suc_eq fresh_notin)
qed

section \<open>Reachable states and the claims about the store\<close>

lemma store_inv_apply:
  assumes "store_inv s" and "apply_op s x = Inr s'"
  shows "store_inv s'"
proof (cases x)
  case (CreateUser i)
  with assms show ?thesis by (simp add: create_user_inv)
next
  case (CreateCustomerProfile u prefs saved)
  with assms show ?thesis by (simp add: create_customer_profile_inv)
next
  case (CreateAdminProfile u perms dept)
  with assms show ?thesis by (simp add: create_admin_profile_inv)
next
  case (CreateBrand i)
  with assms show ?thesis by (simp add: create_brand_inv)
next
  case (CreateReview u b rating comment images)
  with assms show ?thesis by (simp add: create_review_inv)
next
  case (RegisterFile i)
  with assms show ?thesis by (simp add: register_file_inv)
next
  case (CreateLandingPage b name slug settings)
  with assms show ?thesis by (simp add: create_landing_page_inv)
next
  case (UpdateStatus p st)
  with assms show ?thesis by (simp add: update_status_inv)
next
  case (InsertBlock p ty ord content)
  with assms show ?thesis by (simp add: insert_block_inv)
next
  case (CreateQRCode p b name payload settings)
  with assms show ?thesis by (simp add: create_qr_code_inv)
next
  case (RecordScan q u ip agent loc)
  with assms show ?thesis by (simp add: record_scan_inv)
next
  case (DeleteUser u)
  with assms show ?thesis by (simp add: store_inv_delete_user)
next
  case (DeleteBrand b)
  with assms show ?thesis
    by (auto simp: delete_brand_def store_inv_delete_brands split: if_splits)
next
  case (DeleteLandingPage p)
  with assms show ?thesis
    by (auto simp: delete_landing_page_def store_inv_delete_landingPages split: if_splits)
next
  case (DeleteQRCode q)
  with assms show ?thesis
    by (auto simp: delete_qr_code_def store_inv_delete_qrCodes split: if_splits)
next
  case (DeleteBlock b)
  with assms show ?thesis by (simp add: delete_block_inv)
qed

lemma store_inv_step: "store_inv s \<Longrightarrow> store_inv (step s x)"
  by (cases "apply_op s x") (simp_all add: step_def store_inv_apply)

lemma store_inv_foldl: "store_inv s \<Longrightarrow> store_inv (foldl step s xs)"
  by (induction xs arbitrary: s) (simp_all add: store_inv_step)

lemma store_inv_empty: "store_inv empty_store"
  by (simp add: store_inv_def empty_store_def keys_distinct_def ids_below_def ref_integrity_def
      slugs_distinct_def profiles_unique_def counts_ok_def ratings_ok_def)

lemma store_inv_run: "store_inv (run xs)"
  unfolding run_def by (rule store_inv_foldl [OF store_inv_empty])

lemma store_inv_apply_all:
  "store_inv s \<Longrightarrow> apply_all s xs = Inr s' \<Longrightarrow> store_inv s'"
proof (induction xs arbitrary: s)
  case Nil
  then show ?case by simp
next
  case (Cons x xs)
  then show ?case
    by (cases "apply_op s x") (auto dest: store_inv_apply)
qed

text \<open>
  Claim C2. A landing page whose slug is already in use anywhere in the store is refused
  with \<open>ConflictError\<close> and the store stays as it was; in every reachable state the slugs
  of all landing pages are pairwise distinct.
\<close>

theorem slug_globally_unique:
  "(slug \<in> set (map lp_slug (landingPages s)) \<longrightarrow>
      create_landing_page s b name slug settings = Inl (ConflictError SlugConflict) \<and>
      step s (CreateLandingPage b name slug settings) = s) \<and>
   distinct (map lp_slug (landingPages (run xs)))"
proof -
  have "distinct (map lp_slug (landingPages (run xs)))"
    using store_inv_run [of xs] by (simp add: store_inv_def slugs_distinct_def)
  then show ?thesis
    by (simp add: create_landing_page_def step_def)
qed

theorem slug_globally_unique_witness:
  "''acme-launch'' \<in> set (map lp_slug (landingPages demo_store)) \<and>
   create_landing_page demo_store 2 ''Second'' ''acme-launch'' None
     = Inl (ConflictError SlugConflict) \<and>
   step demo_store (CreateLandingPage 2 ''Second'' ''acme-launch'' None) = demo_store \<and>
   distinct (map lp_slug (landingPages (run demo_ops)))"
proof -
  have "''acme-launch'' \<in> set (map lp_slug (landingPages demo_store))"
    by (simp add: demo_store_eq)
  with slug_globally_unique [of "''acme-launch''" demo_store 2 "''Second''" None demo_ops]
  show ?thesis by blast
qed

text \<open>
  Claim C6. A user has at most one customer profile and at most one admin profile: a
  second profile of a kind the user already has is refused with \<open>ProfileAlreadyExists\<close>
  and the store stays as it was; in every reachable state no two customer profiles and
  no two admin profiles name the same user.
\<close>

theorem one_profile_per_user:
  "(u \<in> set (map cp_userId (customerProfiles s)) \<longrightarrow>
      create_customer_profile s u prefs saved = Inl (ConflictError ProfileAlreadyExists) \<and>
      step s (CreateCustomerProfile u prefs saved) = s) \<and>
   (u \<in> set (map ap_userId (adminProfiles s)) \<longrightarrow>
      create_admin_profile s u perms dept = Inl (ConflictError ProfileAlreadyExists) \<and>
      step s (CreateAdminProfile u perms dept) = s) \<and>
   distinct (map cp_userId (customerProfiles (run xs))) \<and>
   distinct (map ap_userId (adminProfiles (run xs)))"
proof -
  have "distinct (map cp_userId (customerProfiles (run xs)))"
    and "distinct (map ap_userId (adminProfiles (run xs)))"
    using store_inv_run [of xs] by (simp_all add: store_inv_def profiles_unique_def)
  then show ?thesis
    by (simp add: create_customer_profile_def create_admin_profile_def step_def)
qed

lemma demo_admin:
  "adminProfiles (step demo_store (CreateAdminProfile 0 [''brands:verify''] None)) =
     [\<lparr>ap_id = 8, ap_userId = 0, ap_permissions = [''brands:verify''], ap_department = None,
       ap_isSuperAdmin = False\<rparr>]"
  by (simp add: step_def create_admin_profile_def demo_store_eq user_ids_def)

theorem one_profile_per_user_witness:
  "1 \<in> set (map cp_userId (customerProfiles demo_store)) \<and>
   create_customer_profile demo_store 1 None [] = Inl (ConflictError ProfileAlreadyExists) \<and>
   step demo_store (CreateCustomerProfile 1 None []) = demo_store \<and>
   0 \<in> set (map ap_userId
          (adminProfiles (step demo_store (CreateAdminProfile 0 [''brands:verify''] None)))) \<and>
   create_admin_profile (step demo_store (CreateAdminProfile 0 [''brands:verify''] None))
       0 [] None = Inl (ConflictError ProfileAlreadyExists)"
proof -
  have c: "1 \<in> set (map cp_userId (customerProfiles demo_store))"
    by (simp add: demo_store_eq)
  have a: "0 \<in> set (map ap_userId
      (adminProfiles (step demo_store (CreateAdminProfile 0 [''brands:verify''] None))))"
    by (simp add: demo_admin)
  from c one_profile_per_user [of 1 demo_store None "[]"]
  have "create_customer_profile demo_store 1 None [] = Inl (ConflictError ProfileAlreadyExists)"
    and "step demo_store (CreateCustomerProfile 1 None []) = demo_store"
    by blast+
  moreover from a
    one_profile_per_user [of 0 "step demo_store (CreateAdminProfile 0 [''brands:verify''] None)"
      _ _ "[]" None]
  have "create_admin_profile (step demo_store (CreateAdminProfile 0 [''brands:verify''] None))
       0 [] None = Inl (ConflictError ProfileAlreadyExists)"
    by blast
  ultimately show ?thesis using c a by blast
qed

text \<open>
  Claim C8. The caller validates the rating before the insert, so a review is accepted
  only with a rating from 1 to 5 and every review of a reachable state has such a rating;
  the storage layer by itself takes any 32-bit rating for an existing user and brand.
\<close>

theorem rating_validated_by_caller:
  "(create_review s u b rating comment images = Inr s' \<longrightarrow> 1 \<le> rating \<and> rating \<le> 5) \<and>
   (rating < 1 \<or> 5 < rating \<longrightarrow>
      create_review s u b rating comment images = Inl ValidationError) \<and>
   (\<forall>r\<in>set (reviews (run xs)). 1 \<le> review_rating r \<and> review_rating r \<le> 5) \<and>
   (u \<in> user_ids s \<and> b \<in> brand_ids s \<and> int4 rating \<longrightarrow>
      (\<exists>t. insert_review s u b rating comment images = Inr t \<and>
           reviews t = reviews s @
             [\<lparr>review_id = nextId s, review_userId = u, review_brandId = b,
               review_rating = rating, review_comment = comment, review_images = images\<rparr>]))"
proof -
  have "\<forall>r\<in>set (reviews (run xs)). 1 \<le> review_rating r \<and> review_rating r \<le> 5"
    using store_inv_run [of xs] by (simp add: store_inv_def ratings_ok_def)
  moreover have "create_review s u b rating comment images = Inr s' \<longrightarrow> 1 \<le> rating \<and> rating \<le> 5"
    by (auto simp: create_review_def split: if_splits)
  moreover have "rating < 1 \<or> 5 < rating \<longrightarrow>
      create_review s u b rating comment images = Inl ValidationError"
    by (simp add: create_review_def)
  moreover have "u \<in> user_ids s \<and> b \<in> brand_ids s \<and> int4 rating \<longrightarrow>
      (\<exists>t. insert_review s u b rating comment images = Inr t \<and>
           reviews t = reviews s @
             [\<lparr>review_id = nextId s, review_userId = u, review_brandId = b,
               review_rating = rating, review_comment = comment, review_images = images\<rparr>])"
    by (simp add: insert_review_def)
  ultimately show ?thesis by blast
qed

theorem rating_validated_by_caller_witness:
  "1 \<in> user_ids demo_store \<and> 2 \<in> brand_ids demo_store \<and> int4 7 \<and>
   create_review demo_store 1 2 7 None [] = Inl ValidationError \<and>
   (\<exists>t. insert_review demo_store 1 2 7 None [] = Inr t \<and>
        reviews t =
          [\<lparr>review_id = 8, review_userId = 1, review_brandId = 2, review_rating = 7,
            review_comment = None, review_images = []\<rparr>]) \<and>
   (\<exists>t. create_review demo_store 1 2 4 None [] = Inr t \<and> (1::int) \<le> 4 \<and> (4::int) \<le> 5) \<and>
   reviews (run (demo_ops @ [CreateReview 1 2 4 None []])) =
     [\<lparr>review_id = 8, review_userId = 1, review_brandId = 2, review_rating = 4,
       review_comment = None, review_images = []\<rparr>]"
proof -
  have h: "1 \<in> user_ids demo_store" "2 \<in> brand_ids demo_store" "int4 7"
    by (simp_all add: demo_store_eq user_ids_def brand_ids_def int4_def)
  have e: "reviews demo_store = []" "nextId demo_store = 8"
    by (simp_all add: demo_store_eq)
  obtain t where ok: "create_review demo_store 1 2 4 None [] = Inr t"
    using h(1,2) by (simp add: create_review_def insert_review_def int4_def)
  then have r: "reviews t =
     [\<lparr>review_id = 8, review_userId = 1, review_brandId = 2, review_rating = 4,
       review_comment = None, review_images = []\<rparr>]"
    using e by (auto simp: create_review_def insert_review_def split: if_splits)
  have "run (demo_ops @ [CreateReview 1 2 4 None []]) = step demo_store (CreateReview 1 2 4 None [])"
    by (simp add: run_def demo_store_def)
  also have "\<dots> = t"
    using ok by (simp add: step_def)
  finally have "run (demo_ops @ [CreateReview 1 2 4 None []]) = t" .
  with r have rr: "reviews (run (demo_ops @ [CreateReview 1 2 4 None []])) =
     [\<lparr>review_id = 8, review_userId = 1, review_brandId = 2, review_rating = 4,
       review_comment = None, review_images = []\<rparr>]"
    by simp
  from rating_validated_by_caller [of demo_store 1 2 4 None "[]" t]
    rating_validated_by_caller [of demo_store 1 2 7 None "[]"] h e ok rr
  show ?thesis by auto
qed

text \<open>
  Claim C7. The store puts no uniqueness on \<open>Brand.userId\<close>: a brand for an existing
  user is accepted whatever brands that user already owns, and there is a reachable,
  consistent state in which two distinct brand rows name the same user.
\<close>

theorem brand_owner_not_unique:
  "(bi_userId i = Some u \<and> u \<in> user_ids s \<and> opt_int4 (bi_foundingYear i) \<longrightarrow>
      create_brand s i =
        Inr (s\<lparr>brands := brands s @ [brand_row (nextId s) u i], nextId := Suc (nextId s)\<rparr>)) \<and>
   apply_all empty_store [CreateUser alice, CreateBrand (acme 0), CreateBrand (acme 0)] =
     Inr (run [CreateUser alice, CreateBrand (acme 0), CreateBrand (acme 0)]) \<and>
   brands (run [CreateUser alice, CreateBrand (acme 0), CreateBrand (acme 0)]) =
     [brand_row 1 0 (acme 0), brand_row 2 0 (acme 0)] \<and>
   brand_id (brand_row 1 0 (acme 0)) \<noteq> brand_id (brand_row 2 0 (acme 0)) \<and>
   brand_userId (brand_row 1 0 (acme 0)) = brand_userId (brand_row 2 0 (acme 0)) \<and>
   consistent (run [CreateUser alice, CreateBrand (acme 0), CreateBrand (acme 0)])"
proof -
  have g: "bi_userId i = Some u \<and> u \<in> user_ids s \<and> opt_int4 (bi_foundingYear i) \<longrightarrow>
      create_brand s i =
        Inr (s\<lparr>brands := brands s @ [brand_row (nextId s) u i], nextId := Suc (nextId s)\<rparr>)"
    by (simp add: create_brand_def)
  have s1: "step empty_store (CreateUser alice) =
      empty_store\<lparr>users := [\<lparr>user_id = 0, user_email = ''alice@acme.test'',
        user_password = ''h1'', user_role = BRAND, user_firstName = None,
        user_lastName = None, user_age = None, user_gender = None, user_phone = None,
        user_avatar = None\<rparr>], nextId := 1\<rparr>"
    and a1: "apply_op empty_store (CreateUser alice) = Inr (step empty_store (CreateUser alice))"
    by (simp_all add: step_def create_user_def opt_int4_def alice_def empty_store_def)
  have u: "bi_userId (acme 0) = Some 0" "opt_int4 (bi_foundingYear (acme 0))"
    by (simp_all add: acme_def opt_int4_def)
  have s2: "apply_op (step empty_store (CreateUser alice)) (CreateBrand (acme 0)) =
      Inr (step empty_store (CreateUser alice)
            \<lparr>brands := [brand_row 1 0 (acme 0)], nextId := 2\<rparr>)"
    unfolding s1 by (simp add: create_brand_def u user_ids_def empty_store_def)
  have s3: "apply_op (step empty_store (CreateUser alice)
            \<lparr>brands := [brand_row 1 0 (acme 0)], nextId := 2\<rparr>) (CreateBrand (acme 0)) =
      Inr (step empty_store (CreateUser alice)
            \<lparr>brands := [brand_row 1 0 (acme 0), brand_row 2 0 (acme 0)], nextId := 3\<rparr>)"
    unfolding s1 by (simp add: create_brand_def u user_ids_def empty_store_def)
  have r: "run [CreateUser alice, CreateBrand (acme 0), CreateBrand (acme 0)] =
      step empty_store (CreateUser alice)
            \<lparr>brands := [brand_row 1 0 (acme 0), brand_row 2 0 (acme 0)], nextId := 3\<rparr>"
    using s2 s3 by (simp add: run_def step_def)
  have a: "apply_all empty_store [CreateUser alice, CreateBrand (acme 0), CreateBrand (acme 0)] =
     Inr (run [CreateUser alice, CreateBrand (acme 0), CreateBrand (acme 0)])"
    unfolding r using a1 s2 s3 by simp
  have c: "consistent (run [CreateUser alice, CreateBrand (acme 0), CreateBrand (acme 0)])"
    using store_inv_run [of "[CreateUser alice, CreateBrand (acme 0), CreateBrand (acme 0)]"]
    by (simp add: store_inv_def consistent_def)
  have b: "brands (run [CreateUser alice, CreateBrand (acme 0), CreateBrand (acme 0)]) =
     [brand_row 1 0 (acme 0), brand_row 2 0 (acme 0)]"
    unfolding r by simp
  from g a b c show ?thesis by simp
qed

theorem brand_owner_not_unique_witness:
  "bi_userId (acme 0) = Some 0 \<and> 0 \<in> user_ids demo_store \<and> opt_int4 (bi_foundingYear (acme 0)) \<and>
   0 \<in> set (map brand_userId (brands demo_store)) \<and>
   create_brand demo_store (acme 0) =
     Inr (demo_store\<lparr>brands := brands demo_store @ [brand_row 8 0 (acme 0)], nextId := 9\<rparr>)"
proof -
  have h: "bi_userId (acme 0) = Some 0" "0 \<in> user_ids demo_store"
    "opt_int4 (bi_foundingYear (acme 0))"
    "0 \<in> set (map brand_userId (brands demo_store))" "nextId demo_store = 8"
    by (simp_all add: acme_def demo_store_eq user_ids_def opt_int4_def)
  from brand_owner_not_unique [of "acme 0" 0 demo_store] h show ?thesis by simp
qed

lemma record_scan_logs:
  assumes "record_scan s q u ip agent loc = Inr s'"
  shows "length (scan_logs_of s' k) = length (scan_logs_of s k) + (if k = q then 1 else 0)"
    and "qr_ids s' = qr_ids s"
proof -
  define f :: "qr_code \<Rightarrow> qr_code"
    where "f = (\<lambda>x. if qr_id x = q then x\<lparr>qr_scanCount := qr_scanCount x + 1\<rparr> else x)"
  from assms have s': "scanLogs s' = scanLogs s @
      [\<lparr>sl_id = nextId s, sl_qrCodeId = q, sl_userId = u, sl_ipAddress = ip,
        sl_userAgent = agent, sl_location = loc\<rparr>]"
    and q: "qrCodes s' = map f (qrCodes s)"
    by (auto simp: record_scan_def f_def split: if_splits)
  have f: "\<And>x. qr_id (f x) = qr_id x" by (simp add: f_def)
  show "length (scan_logs_of s' k) = length (scan_logs_of s k) + (if k = q then 1 else 0)"
    by (simp add: scan_logs_of_def s')
  show "qr_ids s' = qr_ids s"
    by (simp add: qr_ids_def q f image_image comp_def)
qed

lemma scans_logs:
  "apply_all s (map (scan_op k) rs) = Inr s' \<Longrightarrow>
   length (scan_logs_of s' k) = length (scan_logs_of s k) + length rs \<and> qr_ids s' = qr_ids s"
proof (induction rs arbitrary: s)
  case Nil
  then show ?case by simp
next
  case (Cons r rs)
  from Cons.prems obtain t where
    t0: "apply_op s (scan_op k r) = Inr t"
    and rest: "apply_all t (map (scan_op k) rs) = Inr s'"
    by (cases "apply_op s (scan_op k r)") simp_all
  from t0 have
    t: "record_scan s k (sr_userId r) (sr_ipAddress r) (sr_userAgent r) (sr_location r) = Inr t"
    by (simp add: scan_op_def)
  from record_scan_logs(1) [OF t, of k] record_scan_logs(2) [OF t] Cons.IH [OF rest]
  show ?case by simp
qed

text \<open>
  Claim C3. A QR code is created with a scan counter of zero; in every reachable state
  the counter of every QR code equals the number of scan-log rows that name it; and N
  scans recorded against a newly created QR code, in whatever order the store serialises
  them, leave its counter at N with exactly N scan-log rows.
\<close>

theorem scan_counter_matches_logs:
  "(create_qr_code s p b name payload settings = Inr s' \<longrightarrow>
      (\<exists>q. qrCodes s' = qrCodes s @ [q] \<and> qr_id q = nextId s \<and> qr_scanCount q = 0)) \<and>
   (\<forall>q\<in>set (qrCodes (run xs)). qr_scanCount q = int (length (scan_logs_of (run xs) (qr_id q)))) \<and>
   (create_qr_code (run xs) p b name payload settings = Inr t1 \<and>
    apply_all t1 (map (scan_op (nextId (run xs))) rs) = Inr t2 \<longrightarrow>
      length (scan_logs_of t2 (nextId (run xs))) = length rs \<and>
      (\<exists>q\<in>set (qrCodes t2). qr_id q = nextId (run xs)) \<and>
      (\<forall>q\<in>set (qrCodes t2). qr_id q = nextId (run xs) \<longrightarrow> qr_scanCount q = int (length rs)))"
proof -
  have 1: "create_qr_code s p b name payload settings = Inr s' \<longrightarrow>
      (\<exists>q. qrCodes s' = qrCodes s @ [q] \<and> qr_id q = nextId s \<and> qr_scanCount q = 0)"
    using create_qr_code_frame(1) by blast
  have 2: "\<forall>q\<in>set (qrCodes (run xs)). qr_scanCount q = int (length (scan_logs_of (run xs) (qr_id q)))"
    using store_inv_run [of xs] by (simp add: store_inv_def counts_ok_def)
  have 3: "length (scan_logs_of t2 (nextId (run xs))) = length rs \<and>
      (\<exists>q\<in>set (qrCodes t2). qr_id q = nextId (run xs)) \<and>
      (\<forall>q\<in>set (qrCodes t2). qr_id q = nextId (run xs) \<longrightarrow> qr_scanCount q = int (length rs))"
    if c: "create_qr_code (run xs) p b name payload settings = Inr t1"
      and a: "apply_all t1 (map (scan_op (nextId (run xs))) rs) = Inr t2"
  proof -
    let ?k = "nextId (run xs)"
    have i0: "store_inv (run xs)" by (rule store_inv_run)
    have i1: "store_inv t1" using i0 c by (rule create_qr_code_inv)
    have i2: "store_inv t2" using i1 a by (rule store_inv_apply_all)
    from create_qr_code_frame [OF c] obtain q where
      q: "qrCodes t1 = qrCodes (run xs) @ [q]" "qr_id q = ?k"
      and l: "scanLogs t1 = scanLogs (run xs)"
      by blast
    have "filter (\<lambda>l. sl_qrCodeId l = ?k) (scanLogs (run xs)) = []"
      using i0
      by (intro no_logs_for_fresh [of _ "qrCodes (run xs)"])
         (simp_all add: store_inv_def ref_integrity_def ids_below_def qr_ids_def)
    then have z: "length (scan_logs_of t1 ?k) = 0"
      by (simp add: scan_logs_of_def l)
    have k1: "?k \<in> qr_ids t1"
      by (simp add: qr_ids_def q)
    from scans_logs [OF a] z k1 have n: "length (scan_logs_of t2 ?k) = length rs"
      and k2: "?k \<in> qr_ids t2"
      by simp_all
    from k2 have "\<exists>q\<in>set (qrCodes t2). qr_id q = ?k"
      by (auto simp: qr_ids_def)
    moreover have "\<forall>q\<in>set (qrCodes t2). qr_id q = ?k \<longrightarrow> qr_scanCount q = int (length rs)"
      using i2 n by (auto simp: store_inv_def counts_ok_def)
    ultimately show ?thesis using n by blast
  qed
  from 1 2 3 show ?thesis by blast
qed

theorem scan_counter_matches_logs_witness:
  "\<exists>t1 t2. create_qr_code (run demo_ops) 3 2 ''flyer'' ''/acme-launch'' None = Inr t1 \<and>
      apply_all t1 (map (scan_op (nextId (run demo_ops)))
         [anonymous_scan, anonymous_scan\<lparr>sr_userId := Some 1\<rparr>, anonymous_scan]) = Inr t2 \<and>
      nextId (run demo_ops) = 8 \<and>
      length (scan_logs_of t2 8) = 3 \<and>
      (\<exists>q\<in>set (qrCodes t2). qr_id q = 8 \<and> qr_scanCount q = 3) \<and>
      (\<exists>q\<in>set (qrCodes (run demo_ops)). qr_id q = 4 \<and> qr_scanCount q = 2 \<and>
          length (scan_logs_of (run demo_ops) 4) = 2)"
proof -
  have d: "run demo_ops = demo_store" by (simp add: demo_store_def)
  have n: "nextId demo_store = 8" by (simp add: demo_store_eq)
  obtain q0 where q0: "q0 \<in> set (qrCodes demo_store)" "qr_id q0 = 4" "qr_scanCount q0 = 2"
    by (simp add: demo_store_eq)
  obtain t1 where c: "create_qr_code demo_store 3 2 ''flyer'' ''/acme-launch'' None = Inr t1"
    by (simp add: create_qr_code_def demo_store_eq page_ids_def brand_ids_def)
  then have t1: "t1 = demo_store\<lparr>qrCodes := qrCodes demo_store @
        [\<lparr>qr_id = 8, qr_landingPageId = 3, qr_brandId = 2, qr_name = ''flyer'',
          qr_data = ''/acme-launch'', qr_settings = None, qr_scanCount = 0\<rparr>], nextId := 9\<rparr>"
    by (auto simp: create_qr_code_def n split: if_splits)
  obtain t2 where a: "apply_all t1 (map (scan_op 8)
         [anonymous_scan, anonymous_scan\<lparr>sr_userId := Some 1\<rparr>, anonymous_scan]) = Inr t2"
    unfolding t1
    by (simp add: demo_store_eq scan_op_def anonymous_scan_def record_scan_def qr_ids_def
        user_ids_def opt_in_def int4_def)
  note T = scan_counter_matches_logs
    [of demo_store 3 2 "''flyer''" "''/acme-launch''" None t1 demo_ops t1
      "[anonymous_scan, anonymous_scan\<lparr>sr_userId := Some 1\<rparr>, anonymous_scan]" t2,
      unfolded d n]
  from T c a have "length (scan_logs_of t2 8) = 3"
    and "\<exists>q\<in>set (qrCodes t2). qr_id q = 8"
    and "\<forall>q\<in>set (qrCodes t2). qr_id q = 8 \<longrightarrow> qr_scanCount q = 3"
    by simp_all
  moreover from T q0 have "int (length (scan_logs_of demo_store 4)) = 2"
    by force
  ultimately show ?thesis
    unfolding d n using c a q0 by (intro exI [of _ t1] exI [of _ t2]) auto
qed

section \<open>The brand forms\<close>

lemma map_of_set_columns:
  "map_of (set_columns r p) c = (if c \<in> fst ` set p then map_of p c else map_of r c)"
proof (cases "c \<in> fst ` set p")
  case True
  then obtain v where "map_of p c = Some v"
    by (metis map_of_eq_None_iff not_Some_eq)
  then show ?thesis using True by (simp add: set_columns_def)
next
  case False
  then have "map_of p c = None" by (simp add: map_of_eq_None_iff)
  moreover have nb: "\<And>v. (c, v) \<notin> set p"
    using False by force
  moreover have "map_of (filter (\<lambda>(k, v). k \<notin> fst ` set p) r) c = map_of r c"
    by (induction r) (auto simp: nb image_iff)
  ultimately show ?thesis using False by (simp add: set_columns_def map_add_def)
qed

lemma upsert_existing:
  assumes u: "upsert rejects tbl p = Inr tbl'" and e: "\<exists>r\<in>set tbl. same_user r p"
  shows "tbl' = map (\<lambda>r. if same_user r p then set_columns r p else r) tbl"
  using u e by (auto simp: upsert_def split: option.splits if_splits)

lemma distinct_updatePayload: "distinct (map fst (updatePayload uid now pr))"
  by (simp add: updatePayload_def)

lemma remove_blank_columns:
  assumes "distinct (map fst p)"
  shows "(c \<in> fst ` set (remove_blank p)) = (\<exists>v. map_of p c = Some v \<and> \<not> is_blank v)"
proof -
  have "(c \<in> fst ` set (remove_blank p)) = (\<exists>v. (c, v) \<in> set p \<and> \<not> is_blank v)"
    by (auto simp: remove_blank_def image_iff)
  then show ?thesis using assms by simp
qed


text \<open>
  Claim C5. An update that meets the brand's row sets the columns of the payload and
  leaves every other column of that row, and every other row, as it was. The payload the
  form sends holds exactly the columns whose form value is neither undefined, null nor
  the empty string, so a field left blank keeps its stored value.
\<close>

theorem partial_update:
  "(upsert rejects tbl p = Inr tbl' \<and> (\<exists>r\<in>set tbl. same_user r p) \<longrightarrow>
      length tbl' = length tbl \<and>
      (\<forall>i<length tbl.
         (\<forall>c. c \<notin> fst ` set p \<longrightarrow> map_of (tbl' ! i) c = map_of (tbl ! i) c) \<and>
         (\<not> same_user (tbl ! i) p \<longrightarrow> tbl' ! i = tbl ! i) \<and>
         (same_user (tbl ! i) p \<longrightarrow> (\<forall>c\<in>fst ` set p. map_of (tbl' ! i) c = map_of p c)))) \<and>
   (handleSubmit rejects (Some uid) now pr tbl = (Toast_success m, tbl', url) \<longrightarrow>
      upsert rejects tbl (remove_blank (updatePayload uid now pr)) = Inr tbl') \<and>
   (\<forall>c. c \<in> fst ` set (remove_blank (updatePayload uid now pr)) \<longleftrightarrow>
        (\<exists>v. map_of (updatePayload uid now pr) c = Some v \<and> \<not> is_blank v))"
proof -
  have 1: "length tbl' = length tbl \<and>
      (\<forall>i<length tbl.
         (\<forall>c. c \<notin> fst ` set p \<longrightarrow> map_of (tbl' ! i) c = map_of (tbl ! i) c) \<and>
         (\<not> same_user (tbl ! i) p \<longrightarrow> tbl' ! i = tbl ! i) \<and>
         (same_user (tbl ! i) p \<longrightarrow> (\<forall>c\<in>fst ` set p. map_of (tbl' ! i) c = map_of p c)))"
    if "upsert rejects tbl p = Inr tbl'" and "\<exists>r\<in>set tbl. same_user r p"
    unfolding upsert_existing [OF that] by (simp add: map_of_set_columns)
  have 2: "upsert rejects tbl (remove_blank (updatePayload uid now pr)) = Inr tbl'"
    if "handleSubmit rejects (Some uid) now pr tbl = (Toast_success m, tbl', url)"
    using that by (auto simp: handleSubmit_def split: if_splits sum.splits)
  have 3: "\<forall>c. c \<in> fst ` set (remove_blank (updatePayload uid now pr)) \<longleftrightarrow>
        (\<exists>v. map_of (updatePayload uid now pr) c = Some v \<and> \<not> is_blank v)"
    using remove_blank_columns [OF distinct_updatePayload] by blast
  from 1 2 3 show ?thesis by blast
qed

theorem partial_update_witness:
  "\<exists>tbl'. handleSubmit accept_all (Some (utf16 ''u1'')) timestamp edited_profile
        [other_brand, stored_brand]
      = (Toast_success ''Profile updated successfully'', tbl',
         Some (utf16 ''/brand/'' @ brandSlug (utf16 ''Acme Corp''))) \<and>
     (\<exists>r\<in>set [other_brand, stored_brand].
        same_user r (remove_blank (updatePayload (utf16 ''u1'') timestamp edited_profile))) \<and>
     length tbl' = 2 \<and> tbl' ! 0 = other_brand \<and>
     map_of (tbl' ! 1) ''name'' = Some (Text (utf16 ''Acme Corp'')) \<and>
     map_of (tbl' ! 1) ''description'' = Some (Text (utf16 ''Anvils and rockets'')) \<and>
     map_of (tbl' ! 1) ''logo'' = Some (Text (utf16 ''https://cdn.test/acme.png'')) \<and>
     map_of (tbl' ! 1) ''tagline'' = Some (Text (utf16 ''Since 1950'')) \<and>
     map_of (tbl' ! 1) ''status'' = Some (Text (utf16 ''pending''))"
proof -
  define p where "p = remove_blank (updatePayload (utf16 ''u1'') timestamp edited_profile)"
  have ne: "utf16 ''u1'' \<noteq> []" "utf16 ''Acme Corp'' \<noteq> []" "utf16 ''Anvils and rockets'' \<noteq> []"
    "utf16 ''a@b.com'' \<noteq> []" "timestamp \<noteq> []" "utf16 ''u2'' \<noteq> utf16 ''u1''"
    by (simp_all add: utf16_def timestamp_def)
  have p: "p = [(''user_id'', Text (utf16 ''u1'')), (''name'', Text (utf16 ''Acme Corp'')),
      (''description'', Text (utf16 ''Anvils and rockets'')), (''email'', Text (utf16 ''a@b.com'')),
      (''contact_email'', Text (utf16 ''a@b.com'')),
      (''social_handles'', Object [(''website'', []), (''facebook'', []),
          (''instagram'', []), (''linkedin'', [])]),
      (''updated_at'', Text timestamp)]"
    by (simp add: p_def remove_blank_def updatePayload_def edited_profile_def is_blank_def
        optional_def non_empty_list_def social_handles_def ne)
  have su: "\<not> same_user other_brand p" "same_user stored_brand p"
    by (simp_all add: same_user_def p other_brand_def stored_brand_def ne)
  then have e: "\<exists>r\<in>set [other_brand, stored_brand]. same_user r p"
    by simp
  obtain tbl' where u: "upsert accept_all [other_brand, stored_brand] p = Inr tbl'"
    using e by (simp add: upsert_def accept_all_def)
  have n: "basic_brandName (basicInfo edited_profile) = utf16 ''Acme Corp''"
    "contact_email (contactInfo edited_profile) = utf16 ''a@b.com''"
    by (simp_all add: edited_profile_def)
  have h: "handleSubmit accept_all (Some (utf16 ''u1'')) timestamp edited_profile
        [other_brand, stored_brand]
      = (Toast_success ''Profile updated successfully'', tbl',
         Some (utf16 ''/brand/'' @ brandSlug (utf16 ''Acme Corp'')))"
    using u by (simp add: handleSubmit_def n ne p_def [symmetric])
  have c: "''logo'' \<notin> fst ` set p" "''tagline'' \<notin> fst ` set p" "''status'' \<notin> fst ` set p"
    "''name'' \<in> fst ` set p" "''description'' \<in> fst ` set p"
    by (simp_all add: p)
  from partial_update [of accept_all "[other_brand, stored_brand]" p tbl'] u e
  have len: "length tbl' = length [other_brand, stored_brand]"
    and all: "\<forall>i<length [other_brand, stored_brand].
         (\<forall>c. c \<notin> fst ` set p \<longrightarrow> map_of (tbl' ! i) c = map_of ([other_brand, stored_brand] ! i) c) \<and>
         (\<not> same_user ([other_brand, stored_brand] ! i) p \<longrightarrow> tbl' ! i = [other_brand, stored_brand] ! i) \<and>
         (same_user ([other_brand, stored_brand] ! i) p \<longrightarrow>
            (\<forall>c\<in>fst ` set p. map_of (tbl' ! i) c = map_of p c))"
    by blast+
  have i0: "(0::nat) < length [other_brand, stored_brand]"
    and i1: "(1::nat) < length [other_brand, stored_brand]"
    by simp_all
  have nth: "[other_brand, stored_brand] ! 0 = other_brand"
    "[other_brand, stored_brand] ! 1 = stored_brand"
    by simp_all
  from all [rule_format, OF i0] su(1) have r0: "tbl' ! 0 = other_brand"
    unfolding nth by blast
  from all [rule_format, OF i1]
  have A: "\<And>c. c \<notin> fst ` set p \<Longrightarrow> map_of (tbl' ! 1) c = map_of stored_brand c"
    unfolding nth by blast
  from all [rule_format, OF i1] su(2)
  have B: "\<And>c. c \<in> fst ` set p \<Longrightarrow> map_of (tbl' ! 1) c = map_of p c"
    unfolding nth by blast
  note r1 = A [OF c(1)] A [OF c(2)] A [OF c(3)] B [OF c(4)] B [OF c(5)]
  have v: "map_of stored_brand ''logo'' = Some (Text (utf16 ''https://cdn.test/acme.png''))"
    "map_of stored_brand ''tagline'' = Some (Text (utf16 ''Since 1950''))"
    "map_of stored_brand ''status'' = Some (Text (utf16 ''pending''))"
    "map_of p ''name'' = Some (Text (utf16 ''Acme Corp''))"
    "map_of p ''description'' = Some (Text (utf16 ''Anvils and rockets''))"
    by (simp_all add: stored_brand_def p)
  from h e len r0 r1 v show ?thesis
    unfolding p_def by auto
qed




section \<open>Ingredients survive a save and a load\<close>



































section \<open>The brand slug is URL-safe\<close>

lemma find_SomeD: "find P xs = Some x \<Longrightarrow> x \<in> set xs \<and> P x"
  by (induction xs) (auto split: if_splits)

lemma lower_ranges_above_ascii:
  "\<forall>(lo, hi, st, d)\<in>set lower_ranges. 128 \<le> int lo + d \<or> (lo = 8490 \<and> hi = 8490)"
  by (simp add: lower_ranges_def)

lemma simple_lower_Kelvin: "simple_lower 8490 = 107"
  by (simp add: simple_lower_def lower_ranges_def)

lemma simple_lower_alnum: "is_lower_alnum (simple_lower c) = (is_alnum c \<or> c = 8490)"
proof (cases "c < 128")
  case True
  then show ?thesis
    by (auto simp: simple_lower_def is_lower_alnum_def is_alnum_def)
next
  case False
  then have c: "128 \<le> c" by simp
  then have na: "\<not> is_alnum c" by (simp add: is_alnum_def)
  show ?thesis
  proof (cases "c = 8490")
    case True
    then show ?thesis by (simp add: simple_lower_Kelvin is_lower_alnum_def)
  next
    case nk: False
    let ?P = "\<lambda>(lo, hi, st, d). lo \<le> c \<and> c \<le> hi \<and> (c - lo) mod st = 0"
    have "128 \<le> simple_lower c"
    proof (cases "find ?P lower_ranges")
      case None
      with c show ?thesis by (simp add: simple_lower_def)
    next
      case (Some e)
      obtain lo hi st d where e: "e = (lo, hi, st, d)" by (cases e) auto
      from find_SomeD [OF Some] have "e \<in> set lower_ranges" and "?P e"
        by simp_all
      with e lower_ranges_above_ascii nk have "128 \<le> int lo + d" and "lo \<le> c"
        by auto
      then have "128 \<le> nat (int c + d)" by simp
      with c Some e show ?thesis by (simp add: simple_lower_def)
    qed
    with na nk show ?thesis by (simp add: is_lower_alnum_def)
  qed
qed

text \<open>The code units that lower-casing turns into a letter or digit of ASCII.\<close>

lemma lower_code_point_alnum:
  "(\<exists>u\<in>set (lower_code_point preceding following c). is_lower_alnum u)
   = (is_alnum c \<or> c = 304 \<or> c = 8490)"
proof -
  have "\<not> is_alnum 304" "\<not> is_alnum 931" "is_lower_alnum 105" "\<not> is_lower_alnum 962"
    "\<not> is_lower_alnum 963"
    by (simp_all add: is_alnum_def is_lower_alnum_def)
  then show ?thesis
    by (auto simp: lower_code_point_def simple_lower_alnum)
qed

lemma lower_code_points_alnum:
  "(\<exists>u\<in>set (lower_code_points preceding cs). is_lower_alnum u)
   = (\<exists>c\<in>set cs. is_alnum c \<or> c = 304 \<or> c = 8490)"
proof (induction cs arbitrary: preceding)
  case Nil
  show ?case by simp
next
  case (Cons c cs)
  show ?case
    using Cons [of "c # preceding"] lower_code_point_alnum [of preceding cs c]
    by (simp add: bex_Un)
qed

lemma CodePointsToString_alnum:
  "(\<exists>u\<in>set (CodePointsToString cps). is_lower_alnum u) = (\<exists>c\<in>set cps. is_lower_alnum c)"
proof (induction cps)
  case Nil
  show ?case by (simp add: CodePointsToString_def)
next
  case (Cons c cps)
  have "(\<exists>u\<in>set (UTF16EncodeCodePoint c). is_lower_alnum u) = is_lower_alnum c"
    by (auto simp: UTF16EncodeCodePoint_def is_lower_alnum_def)
  with Cons show ?case
    by (simp add: CodePointsToString_def bex_Un)
qed

lemma StringToCodePoints_below:
  assumes "\<And>c. P c \<Longrightarrow> c < 55296"
  shows "(\<exists>c\<in>set (StringToCodePoints s). P c) = (\<exists>u\<in>set s. P u)"
proof (induction s rule: StringToCodePoints.induct)
  case 1
  show ?case by simp
next
  case (2 c)
  show ?case by simp
next
  case (3 c d cs)
  show ?case
  proof (cases "is_high_surrogate c \<and> is_low_surrogate d")
    case True
    then have "\<not> P c" "\<not> P d" "\<not> P (65536 + (c - 55296) * 1024 + (d - 56320))"
      using assms by (fastforce simp: is_high_surrogate_def is_low_surrogate_def)+
    with True 3 show ?thesis by simp
  next
    case False
    with 3 show ?thesis by auto
  qed
qed

lemma toLowerCase_alnum:
  "(\<exists>u\<in>set (toLowerCase s). is_lower_alnum u)
   = (\<exists>c\<in>set s. is_alnum c \<or> c = 304 \<or> c = 8490)"
proof -
  have "(\<exists>c\<in>set (StringToCodePoints s). is_alnum c \<or> c = 304 \<or> c = 8490)
      = (\<exists>c\<in>set s. is_alnum c \<or> c = 304 \<or> c = 8490)"
    by (rule StringToCodePoints_below) (auto simp: is_alnum_def)
  then show ?thesis
    by (simp add: toLowerCase_def CodePointsToString_alnum lower_code_points_alnum)
qed

lemma dash_not_alnum: "\<not> is_lower_alnum 45"
  by (simp add: is_lower_alnum_def)

lemma set_replace_runs: "c \<in> set (replace_runs s) \<Longrightarrow> is_lower_alnum c \<or> c = 45"
  by (induction s rule: replace_runs.induct) (auto split: if_splits)

lemma hd_replace_runs_dropWhile:
  "replace_runs (dropWhile (\<lambda>x. \<not> is_lower_alnum x) cs) = [] \<or>
   hd (replace_runs (dropWhile (\<lambda>x. \<not> is_lower_alnum x) cs)) \<noteq> 45"
proof (cases "dropWhile (\<lambda>x. \<not> is_lower_alnum x) cs")
  case Nil
  show ?thesis unfolding Nil by simp
next
  case (Cons d ds)
  then have "is_lower_alnum d"
    using hd_dropWhile [of "\<lambda>x. \<not> is_lower_alnum x" cs] by auto
  show ?thesis unfolding Cons using \<open>is_lower_alnum d\<close> dash_not_alnum by auto
qed

lemma no_double_dash_Cons:
  "no_double_dash xs \<Longrightarrow> (xs = [] \<or> hd xs \<noteq> 45 \<or> a \<noteq> 45) \<Longrightarrow> no_double_dash (a # xs)"
  by (cases xs) auto

lemma no_double_dash_replace_runs: "no_double_dash (replace_runs s)"
proof (induction s rule: replace_runs.induct)
  case 1
  then show ?case by simp
next
  case (2 c cs)
  show ?case
  proof (cases "is_lower_alnum c")
    case True
    then have "c \<noteq> 45" using dash_not_alnum by auto
    with True 2 show ?thesis by (auto intro: no_double_dash_Cons)
  next
    case False
    with 2 hd_replace_runs_dropWhile [of cs] show ?thesis
      by (auto intro!: no_double_dash_Cons)
  qed
qed


lemma no_double_dash_snoc2:
  "no_double_dash (xs @ [x, y]) \<Longrightarrow> \<not> (x = 45 \<and> y = 45)"
  by (induction xs rule: no_double_dash.induct) auto

lemma strip_dashes_ends:
  assumes "no_double_dash r" and "strip_dashes r \<noteq> []"
  shows "hd (strip_dashes r) \<noteq> 45 \<and> last (strip_dashes r) \<noteq> 45"
proof -
  define s1 where "s1 = (case r of [] \<Rightarrow> [] | c # cs \<Rightarrow> if c = 45 then cs else r)"
  have strip: "strip_dashes r = (if s1 \<noteq> [] \<and> last s1 = 45 then butlast s1 else s1)"
    by (simp add: strip_dashes_def s1_def)
  have nd: "no_double_dash s1"
    using assms(1) by (cases r rule: no_double_dash.cases) (auto simp: s1_def)
  have hd1: "s1 = [] \<or> hd s1 \<noteq> 45"
    using assms(1) by (cases r rule: no_double_dash.cases) (auto simp: s1_def)
  show ?thesis
  proof (cases "s1 \<noteq> [] \<and> last s1 = 45")
    case False
    with strip assms(2) hd1 show ?thesis by auto
  next
    case True
    then have t: "strip_dashes r = butlast s1" and s1: "s1 = butlast s1 @ [45]"
      using strip append_butlast_last_id [of s1] by auto
    from assms(2) t have ne: "butlast s1 \<noteq> []" by simp
    then have b: "butlast s1 = butlast (butlast s1) @ [last (butlast s1)]" by simp
    have "no_double_dash (butlast (butlast s1) @ [last (butlast s1), 45])"
      using nd s1 b by (metis append.assoc append_Cons append_Nil)
    then have "last (butlast s1) \<noteq> 45"
      using no_double_dash_snoc2 by blast
    moreover have "hd (butlast s1) = hd s1"
      using ne by (cases s1) auto
    ultimately show ?thesis using t hd1 True by auto
  qed
qed

lemma alnum_replace_runs:
  "(\<exists>c\<in>set (replace_runs s). is_lower_alnum c) = (\<exists>c\<in>set s. is_lower_alnum c)"
proof (induction s rule: replace_runs.induct)
  case 1
  then show ?case by simp
next
  case (2 c cs)
  have "(\<exists>x\<in>set (dropWhile (\<lambda>x. \<not> is_lower_alnum x) cs). is_lower_alnum x)
        = (\<exists>x\<in>set cs. is_lower_alnum x)"
    by (induction cs) auto
  with 2 show ?case by (auto simp: dash_not_alnum)
qed

lemma strip_dashes_keeps:
  "c \<in> set r \<Longrightarrow> c \<noteq> 45 \<Longrightarrow> c \<in> set (strip_dashes r)"
proof -
  assume c: "c \<in> set r" "c \<noteq> 45"
  define s1 where "s1 = (case r of [] \<Rightarrow> [] | c # cs \<Rightarrow> if c = 45 then cs else r)"
  have "c \<in> set s1" using c by (cases r) (auto simp: s1_def)
  moreover have "strip_dashes r = (if s1 \<noteq> [] \<and> last s1 = 45 then butlast s1 else s1)"
    by (simp add: strip_dashes_def s1_def)
  moreover have "s1 \<noteq> [] \<Longrightarrow> last s1 = 45 \<Longrightarrow> c \<in> set (butlast s1)"
    using \<open>c \<in> set s1\<close> c(2) by (metis append_butlast_last_id rotate1.simps(2) set_ConsD set_rotate1)
  ultimately show ?thesis by auto
qed

lemma strip_dashes_subset: "set (strip_dashes r) \<subseteq> set r"
  by (cases r) (auto simp: strip_dashes_def Let_def dest: in_set_butlastD)

lemma strip_only_dashes:
  assumes "no_double_dash r" and "\<forall>c\<in>set r. c = 45"
  shows "strip_dashes r = []"
proof (cases r)
  case Nil
  then show ?thesis by (simp add: strip_dashes_def)
next
  case (Cons a as)
  show ?thesis
  proof (cases as)
    case Nil
    with Cons assms show ?thesis by (simp add: strip_dashes_def)
  next
    case (Cons b bs)
    with \<open>r = a # as\<close> assms show ?thesis by auto
  qed
qed


text \<open>
  Claim C10. For every brand name, a string of UTF-16 code units, the slug contains only
  characters of \<open>[a-z0-9-]\<close> and does not begin or end with a dash. It is empty only
  when the name holds no character of \<open>[A-Za-z0-9]\<close>; more exactly, it is empty if and
  only if the name holds no character of \<open>[A-Za-z0-9]\<close>, no \<open>U+0130\<close> and no Kelvin sign
  \<open>U+212A\<close>, the two other code units that lower-casing turns into a letter.
\<close>

theorem slug_ok:
  "(\<forall>c\<in>set (brandSlug brandName). is_lower_alnum c \<or> c = 45) \<and>
   (brandSlug brandName \<noteq> [] \<longrightarrow>
      hd (brandSlug brandName) \<noteq> 45 \<and> last (brandSlug brandName) \<noteq> 45) \<and>
   (brandSlug brandName = [] \<longrightarrow> (\<forall>c\<in>set brandName. \<not> is_alnum c)) \<and>
   (brandSlug brandName = [] \<longleftrightarrow>
      (\<forall>c\<in>set brandName. \<not> is_alnum c \<and> c \<noteq> 304 \<and> c \<noteq> 8490))"
proof -
  define r where "r = replace_runs (toLowerCase brandName)"
  have slug: "brandSlug brandName = strip_dashes r"
    by (simp add: brandSlug_def r_def)
  have nd: "no_double_dash r"
    by (simp add: r_def no_double_dash_replace_runs)
  have chars: "\<forall>c\<in>set r. is_lower_alnum c \<or> c = 45"
    using set_replace_runs by (auto simp: r_def)
  have alnum: "(\<exists>c\<in>set r. is_lower_alnum c)
      = (\<exists>c\<in>set brandName. is_alnum c \<or> c = 304 \<or> c = 8490)"
    by (simp add: r_def alnum_replace_runs toLowerCase_alnum)
  have 1: "\<forall>c\<in>set (brandSlug brandName). is_lower_alnum c \<or> c = 45"
    using chars strip_dashes_subset [of r] slug by auto
  have 2: "brandSlug brandName \<noteq> [] \<longrightarrow>
      hd (brandSlug brandName) \<noteq> 45 \<and> last (brandSlug brandName) \<noteq> 45"
    using strip_dashes_ends [OF nd] slug by simp
  have 4: "brandSlug brandName = [] \<longleftrightarrow>
      (\<forall>c\<in>set brandName. \<not> is_alnum c \<and> c \<noteq> 304 \<and> c \<noteq> 8490)"
  proof
    assume e: "brandSlug brandName = []"
    show "\<forall>c\<in>set brandName. \<not> is_alnum c \<and> c \<noteq> 304 \<and> c \<noteq> 8490"
    proof (rule ccontr)
      assume "\<not> (\<forall>c\<in>set brandName. \<not> is_alnum c \<and> c \<noteq> 304 \<and> c \<noteq> 8490)"
      then have "\<exists>c\<in>set brandName. is_alnum c \<or> c = 304 \<or> c = 8490" by blast
      then obtain c where "c \<in> set r" "is_lower_alnum c" using alnum by auto
      then have "c \<in> set (strip_dashes r)"
        using strip_dashes_keeps dash_not_alnum by metis
      with e slug show False by simp
    qed
  next
    assume "\<forall>c\<in>set brandName. \<not> is_alnum c \<and> c \<noteq> 304 \<and> c \<noteq> 8490"
    then have "\<not> (\<exists>c\<in>set r. is_lower_alnum c)" using alnum by blast
    then have "\<forall>c\<in>set r. c = 45" using chars by auto
    then show "brandSlug brandName = []"
      using strip_only_dashes [OF nd] slug by simp
  qed
  from 4 have 3: "brandSlug brandName = [] \<longrightarrow> (\<forall>c\<in>set brandName. \<not> is_alnum c)"
    by blast
  from 1 2 3 4 show ?thesis by blast
qed

theorem slug_ok_witness:
  "brandSlug (utf16 ''  Acme Foods & Co.!  '') = utf16 ''acme-foods-co'' \<and>
   hd (brandSlug (utf16 ''  Acme Foods & Co.!  '')) \<noteq> 45 \<and>
   last (brandSlug (utf16 ''  Acme Foods & Co.!  '')) \<noteq> 45 \<and>
   (\<exists>c\<in>set (utf16 ''  Acme Foods & Co.!  ''). is_alnum c) \<and>
   brandSlug [233, 8364] = [] \<and> \<not> is_alnum 233 \<and> \<not> is_alnum 8364 \<and>
   brandSlug [8490] = [107] \<and> \<not> is_alnum 8490"
proof -
  note defs = brandSlug_def toLowerCase_def utf16_def lower_code_point_def simple_lower_def
    CodePointsToString_def UTF16EncodeCodePoint_def is_high_surrogate_def is_lower_alnum_def
    strip_dashes_def lower_ranges_def
  have al: "\<exists>c\<in>set (utf16 ''  Acme Foods & Co.!  ''). is_alnum c"
    by (simp add: utf16_def is_alnum_def)
  with slug_ok [of "utf16 ''  Acme Foods & Co.!  ''"]
  have ne: "brandSlug (utf16 ''  Acme Foods & Co.!  '') \<noteq> []"
    by blast
  with slug_ok [of "utf16 ''  Acme Foods & Co.!  ''"]
  have a: "hd (brandSlug (utf16 ''  Acme Foods & Co.!  '')) \<noteq> 45"
    "last (brandSlug (utf16 ''  Acme Foods & Co.!  '')) \<noteq> 45"
    by blast+
  have e: "brandSlug (utf16 ''  Acme Foods & Co.!  '') = utf16 ''acme-foods-co''"
    by (simp add: defs)
  have z: "brandSlug [233, 8364] = []"
    by (simp add: defs)
  with slug_ok [of "[233, 8364]"]
  have b: "\<not> is_alnum 233" "\<not> is_alnum 8364"
    by simp_all
  have k: "brandSlug [8490] = [107]" "\<not> is_alnum 8490"
    by (simp_all add: defs is_alnum_def)
  from e a al z b k show ?thesis by blast
qed

end
